theory Spec2Isabelle
  imports Main "HOL-Library.Word"
begin

text \<open>
  The server of the PDF-to-Word converter, in its latest revision (the one with the
  shutdown flag): the text normalizer \<^verbatim>\<open>cleanText\<close>, the upload configuration, the
  handlers of \<^verbatim>\<open>POST /convert\<close>, \<^verbatim>\<open>GET /download/:filename\<close>, \<^verbatim>\<open>GET /health\<close> and \<^verbatim>\<open>GET /\<close>,
  and the delayed file cleanup. The libraries (multipart decoding, PDF parsing, document
  writing, the file system) appear through what they hand back to the handlers.
\<close>

section \<open>JavaScript strings\<close>

text \<open>
  A JavaScript string is a sequence of 16-bit code units. The regular expressions of
  \<^verbatim>\<open>server.js\<close> carry no \<^verbatim>\<open>u\<close> flag, so they match code unit by code unit.
\<close>

type_synonym jschar = "16 word"
type_synonym jsstring = "jschar list"

definition js :: "string \<Rightarrow> jsstring" where
  \<comment> \<open>an ASCII literal of the source as code units\<close>
  "js s = map (\<lambda>c. of_char c) s"

definition LF :: jschar where "LF = 0x0A"
definition CR :: jschar where "CR = 0x0D"
definition SP :: jschar where "SP = 0x20"
definition TAB :: jschar where "TAB = 0x09"

definition is_blank :: "jschar \<Rightarrow> bool" where
  \<comment> \<open>the class \<^verbatim>\<open>[ \t]\<close>\<close>
  "is_blank c = (c = SP \<or> c = TAB)"

definition is_lt :: "jschar \<Rightarrow> bool" where
  \<comment> \<open>ECMAScript LineTerminator: LF, CR, LS, PS; what \<^verbatim>\<open>^\<close> and \<^verbatim>\<open>$\<close> look at under the \<^verbatim>\<open>m\<close> flag\<close>
  "is_lt c = (c = LF \<or> c = CR \<or> c = 0x2028 \<or> c = 0x2029)"

definition is_ws :: "jschar \<Rightarrow> bool" where
  \<comment> \<open>the class \<^verbatim>\<open>\s\<close> (WhiteSpace and LineTerminator), which is also what \<^verbatim>\<open>trim()\<close> strips\<close>
  "is_ws c = (c = TAB \<or> c = LF \<or> c = 0x0B \<or> c = 0x0C \<or> c = CR \<or> c = SP \<or> c = 0xA0
              \<or> c = 0x1680 \<or> (0x2000 \<le> c \<and> c \<le> 0x200A) \<or> c = 0x2028 \<or> c = 0x2029
              \<or> c = 0x202F \<or> c = 0x205F \<or> c = 0x3000 \<or> c = 0xFEFF)"

section \<open>The Text Normalizer: \<^verbatim>\<open>cleanText\<close>\<close>

text \<open>
  Each \<^verbatim>\<open>replace\<close> with a \<^verbatim>\<open>g\<close> flag scans the subject from left to right; at each index
  it tries the pattern, a match is replaced and the scan resumes after it, otherwise the
  code unit is copied and the scan moves on by one.
\<close>

fun crlf_to_lf :: "jsstring \<Rightarrow> jsstring" where
  \<comment> \<open>\<^verbatim>\<open>.replace(/\r\n/g, '\n')\<close>\<close>
  "crlf_to_lf (a # b # cs) =
     (if a = CR \<and> b = LF then LF # crlf_to_lf cs else a # crlf_to_lf (b # cs))"
| "crlf_to_lf cs = cs"

definition cr_to_lf :: "jsstring \<Rightarrow> jsstring" where
  \<comment> \<open>\<^verbatim>\<open>.replace(/\r/g, '\n')\<close>\<close>
  "cr_to_lf s = map (\<lambda>c. if c = CR then LF else c) s"

function collapse_newlines :: "jsstring \<Rightarrow> jsstring" where
  \<comment> \<open>\<^verbatim>\<open>.replace(/\n{3,}/g, '\n\n')\<close>: the quantifier is greedy, a match is the whole run\<close>
  "collapse_newlines [] = []"
| "collapse_newlines (c # cs) =
     (if 3 \<le> length (takeWhile (\<lambda>x. x = LF) (c # cs))
      then LF # LF # collapse_newlines (dropWhile (\<lambda>x. x = LF) (c # cs))
      else c # collapse_newlines cs)"
  by pat_completeness auto
termination
proof (relation "measure length")
  fix c :: jschar and cs :: jsstring
  assume "3 \<le> length (takeWhile (\<lambda>x. x = LF) (c # cs))"
  then have "c = LF" by (auto split: if_splits)
  then have "length (dropWhile (\<lambda>x. x = LF) (c # cs)) \<le> length cs"
    by (simp add: length_dropWhile_le)
  then show "(dropWhile (\<lambda>x. x = LF) (c # cs), c # cs) \<in> measure length" by simp
qed simp_all

function collapse_blanks :: "jsstring \<Rightarrow> jsstring" where
  \<comment> \<open>\<^verbatim>\<open>.replace(/[ \t]{2,}/g, ' ')\<close>\<close>
  "collapse_blanks [] = []"
| "collapse_blanks (c # cs) =
     (if 2 \<le> length (takeWhile is_blank (c # cs))
      then SP # collapse_blanks (dropWhile is_blank (c # cs))
      else c # collapse_blanks cs)"
  by pat_completeness auto
termination
proof (relation "measure length")
  fix c :: jschar and cs :: jsstring
  assume "2 \<le> length (takeWhile is_blank (c # cs))"
  then have "is_blank c" by (auto split: if_splits)
  then have "length (dropWhile is_blank (c # cs)) \<le> length cs"
    by (simp add: length_dropWhile_le)
  then show "(dropWhile is_blank (c # cs), c # cs) \<in> measure length" by simp
qed simp_all

fun ws_dollar :: "jsstring \<Rightarrow> nat option" where
  \<comment> \<open>the alternative \<^verbatim>\<open>\s+$\<close> tried at the head of the remaining input: the length of its
      match. \<^verbatim>\<open>\s+\<close> is greedy and backtracks, so the match is the longest run of \<^verbatim>\<open>\s\<close>
      after which \<^verbatim>\<open>$\<close> holds (end of input, or a LineTerminator follows).\<close>
  "ws_dollar [] = None"
| "ws_dollar (c # cs) =
     (if is_ws c then
        (case ws_dollar cs of
           Some k \<Rightarrow> Some (Suc k)
         | None \<Rightarrow> if cs = [] \<or> is_lt (hd cs) then Some 1 else None)
      else None)"

function strip_lines :: "bool \<Rightarrow> jsstring \<Rightarrow> jsstring" where
  \<comment> \<open>\<^verbatim>\<open>.replace(/^\s+|\s+$/gm, '')\<close>. The flag \<open>bol\<close> says that \<^verbatim>\<open>^\<close> holds at the current
      index: it is index 0, or the code unit before it is a LineTerminator. The first
      alternative is tried first; its greedy \<^verbatim>\<open>\s+\<close> takes the whole run.\<close>
  "strip_lines bol [] = []"
| "strip_lines bol (c # cs) =
     (if bol \<and> is_ws c
      then strip_lines (is_lt (last (takeWhile is_ws (c # cs)))) (dropWhile is_ws (c # cs))
      else (case ws_dollar (c # cs) of
              Some k \<Rightarrow> strip_lines (is_lt ((c # cs) ! (k - 1))) (drop k (c # cs))
            | None \<Rightarrow> c # strip_lines (is_lt c) cs))"
  by pat_completeness auto
termination
proof (relation "measure (\<lambda>(bol, s). length s)")
  fix bol :: bool and c :: jschar and cs :: jsstring
  assume "bol \<and> is_ws c"
  then have "length (dropWhile is_ws (c # cs)) \<le> length cs"
    by (simp add: length_dropWhile_le)
  then show "((is_lt (last (takeWhile is_ws (c # cs))), dropWhile is_ws (c # cs)), (bol, c # cs))
             \<in> measure (\<lambda>(bol, s). length s)" by simp
next
  fix bol :: bool and c :: jschar and cs :: jsstring and k :: nat
  assume "ws_dollar (c # cs) = Some k"
  then have "0 < k" by (auto split: if_splits option.splits)
  then show "((is_lt ((c # cs) ! (k - 1)), drop k (c # cs)), (bol, c # cs))
             \<in> measure (\<lambda>(bol, s). length s)" by simp
qed simp_all

definition trim :: "jsstring \<Rightarrow> jsstring" where
  \<comment> \<open>\<^verbatim>\<open>String.prototype.trim\<close>\<close>
  "trim s = rev (dropWhile is_ws (rev (dropWhile is_ws s)))"

definition no_text_found :: jsstring where
  "no_text_found = js ''No readable text found in this PDF document.''"

definition appears_empty :: jsstring where
  "appears_empty = js ''Document appears to be empty or contains only images.''"

definition cleanText :: "jsstring option \<Rightarrow> jsstring" where
  \<comment> \<open>The argument is \<open>Some s\<close> for a string and \<open>None\<close> for any value whose \<^verbatim>\<open>typeof\<close> is
      not \<^verbatim>\<open>'string'\<close>. The empty string is falsy, in the guard and after \<^verbatim>\<open>trim()\<close>.\<close>
  "cleanText text =
     (case text of
        None \<Rightarrow> no_text_found
      | Some s \<Rightarrow>
          if s = [] then no_text_found
          else let r = trim (strip_lines True (collapse_blanks (collapse_newlines
                         (cr_to_lf (crlf_to_lf s)))))
               in if r = [] then appears_empty else r)"


section \<open>Properties of normalized text\<close>

fun has_run :: "('a \<Rightarrow> bool) \<Rightarrow> nat \<Rightarrow> 'a list \<Rightarrow> bool" where
  \<comment> \<open>the list contains \<open>n\<close> consecutive elements that all satisfy \<open>P\<close>\<close>
  "has_run P n [] = (n = 0)"
| "has_run P n (c # cs) =
     ((n \<le> Suc (length cs) \<and> list_all P (take n (c # cs))) \<or> has_run P n cs)"

definition lt_isolated :: "jsstring \<Rightarrow> bool" where
  \<comment> \<open>a LineTerminator never stands next to another \<^verbatim>\<open>\s\<close> code unit\<close>
  "lt_isolated s =
     successively (\<lambda>a b. \<not> (is_lt a \<and> is_ws b) \<and> \<not> (is_ws a \<and> is_lt b)) s"

definition single_blanks :: "jsstring \<Rightarrow> bool" where
  "single_blanks s = successively (\<lambda>a b. \<not> (is_blank a \<and> is_blank b)) s"

definition trimmed :: "jsstring \<Rightarrow> bool" where
  "trimmed s = (s = [] \<or> (\<not> is_ws (hd s) \<and> \<not> is_ws (last s)))"

definition normalized :: "jsstring \<Rightarrow> bool" where
  "normalized s =
     (s \<noteq> [] \<and> CR \<notin> set s \<and> single_blanks s \<and> lt_isolated s \<and> trimmed s)"

section \<open>Errors, uploaded files, responses\<close>

record js_error =
  name :: jsstring
  code :: "jsstring option"
  message :: jsstring

definition Error :: "jsstring \<Rightarrow> js_error" where
  \<comment> \<open>\<^verbatim>\<open>new Error(msg)\<close>\<close>
  "Error msg = \<lparr>name = js ''Error'', code = None, message = msg\<rparr>"

definition MulterError :: "jsstring \<Rightarrow> jsstring \<Rightarrow> js_error" where
  "MulterError c msg = \<lparr>name = js ''MulterError'', code = Some c, message = msg\<rparr>"

record upload_file =
  originalname :: jsstring
  mimetype :: jsstring
  size_f :: nat
  path :: jsstring

datatype body =
    ErrorJson jsstring "jsstring option"
  | ConvertedJson jsstring jsstring jsstring
  | HealthJson
  | SendFile jsstring
  | Download jsstring jsstring
  | PartialDownload jsstring jsstring

record http_response =
  status :: nat
  body :: body

datatype timer = Timer nat jsstring

datatype docx_par = Heading jsstring | Subtitle jsstring | Para jsstring | Spacer

record result =
  response :: "http_response option"
  timers :: "timer list"
  uncaught :: "js_error option"
  document :: "docx_par list option"

record server_state =
  isShuttingDown :: bool

record env =
  NODE_ENV :: "jsstring option"
  outputDir :: jsstring

text \<open>
  \<^verbatim>\<open>ErrorJson e d\<close> is the body \<^verbatim>\<open>{error: e, details: d}\<close> (\<open>None\<close> for an absent or
  undefined \<^verbatim>\<open>details\<close>); \<^verbatim>\<open>ConvertedJson msg url orig\<close> is
  \<^verbatim>\<open>{success: true, message, downloadUrl, originalName}\<close>; \<^verbatim>\<open>Download p n\<close> is the file at
  \<open>p\<close> streamed under the name \<open>n\<close>, \<^verbatim>\<open>PartialDownload\<close> a stream that broke after the
  headers went out. \<^verbatim>\<open>Timer d p\<close> is \<^verbatim>\<open>setTimeout(() => safeFileCleanup(p), d)\<close>. In a
  \<open>result\<close>, \<open>response\<close> is what the handler sent (\<open>None\<close>: nothing), \<open>uncaught\<close> an
  exception thrown out of an event listener, outside every \<^verbatim>\<open>try\<close> block.
\<close>

definition json_error :: "nat \<Rightarrow> jsstring \<Rightarrow> jsstring option \<Rightarrow> result" where
  \<comment> \<open>\<^verbatim>\<open>res.status(st).json({ error: e, details: d })\<close> and nothing else\<close>
  "json_error st e d =
     \<lparr>response = Some \<lparr>status = st, body = ErrorJson e d\<rparr>, timers = [],
      uncaught = None, document = None\<rparr>"

definition details_of :: "result \<Rightarrow> jsstring option" where
  "details_of r =
     (case response r of
        None \<Rightarrow> None
      | Some resp \<Rightarrow> (case body resp of ErrorJson e d \<Rightarrow> d | _ \<Rightarrow> None))"

definition is_json_error :: "result \<Rightarrow> bool" where
  "is_json_error r =
     (case response r of
        None \<Rightarrow> False
      | Some resp \<Rightarrow> (case body resp of ErrorJson e d \<Rightarrow> True | _ \<Rightarrow> False))"

definition status_of :: "result \<Rightarrow> nat option" where
  "status_of r = map_option status (response r)"

section \<open>The Upload Gatekeeper\<close>

definition fileSize_limit :: nat where
  \<comment> \<open>\<^verbatim>\<open>limits.fileSize\<close>\<close>
  "fileSize_limit = 10 * 1024 * 1024"

definition files_limit :: nat where
  \<comment> \<open>\<^verbatim>\<open>limits.files\<close>\<close>
  "files_limit = 1"

definition fileFilter :: "upload_file \<Rightarrow> js_error option" where
  \<comment> \<open>the \<^verbatim>\<open>fileFilter\<close> callback: \<open>None\<close> is \<^verbatim>\<open>cb(null, true)\<close>\<close>
  "fileFilter file =
     (if mimetype file = js ''application/pdf'' then None
      else Some (Error (js ''Only PDF files are allowed'')))"

datatype upload_outcome = UploadError js_error | NoFile | Uploaded upload_file

fun multer_single :: "upload_file list \<Rightarrow> upload_outcome" where
  \<comment> \<open>Modelled from the spec: the middleware \<^verbatim>\<open>upload.single('pdfFile')\<close>, which the
      \<^verbatim>\<open>multer\<close> library builds from the configuration above, is not part of the sources.
      Following the Gatekeeper contract, it takes the file parts of the field in the
      order sent (each with the path the disk storage gives it), asks \<open>fileFilter\<close>,
      enforces the size ceiling on the file and the count limit on the parts, and calls
      back with an error, with no file, or with the stored file as \<^verbatim>\<open>req.file\<close>.\<close>
  "multer_single [] = NoFile"
| "multer_single (file # others) =
     (case fileFilter file of
        Some e \<Rightarrow> UploadError e
      | None \<Rightarrow>
          if fileSize_limit < size_f file
          then UploadError (MulterError (js ''LIMIT_FILE_SIZE'') (js ''File too large''))
          else if files_limit < length (file # others)
          then UploadError (MulterError (js ''LIMIT_FILE_COUNT'') (js ''Too many files''))
          else Uploaded file)"

section \<open>The conversion request\<close>

datatype extract_outcome = Extracted "jsstring option" | ExtractThrows js_error

datatype build_outcome = Built | BuildThrows js_error

datatype stream_event = StreamClose | StreamError js_error

text \<open>
  The calls into the libraries are the parameters of the handler: \<open>Extracted t\<close> is a
  \<^verbatim>\<open>pdfParse\<close> that resolves with \<^verbatim>\<open>pdfData.text = t\<close>, \<open>ExtractThrows e\<close> an exception
  inside the inner \<^verbatim>\<open>try\<close> (from \<^verbatim>\<open>readFileSync\<close> or \<^verbatim>\<open>pdfParse\<close>); \<open>BuildThrows e\<close> is an
  exception thrown synchronously by the document-building calls between the inner
  \<^verbatim>\<open>try\<close> and the end of the outer one; the stream event is what the output stream emits
  after \<^verbatim>\<open>docx.generate(output)\<close>. \<^verbatim>\<open>Date.now()\<close> is the parameter \<open>now\<close>.
\<close>

function digits :: "nat \<Rightarrow> jsstring" where
  \<comment> \<open>the decimal digits of a number, as template-literal interpolation writes it\<close>
  "digits n =
     (if n < 10 then [0x30 + of_nat n]
      else digits (n div 10) @ [0x30 + of_nat (n mod 10)])"
  by pat_completeness auto
termination
  by (relation "measure id") auto

definition outputFileName :: "nat \<Rightarrow> jsstring" where
  "outputFileName now = js ''converted-'' @ digits now @ js ''.docx''"

definition extraction_placeholder :: "jsstring \<Rightarrow> jsstring" where
  "extraction_placeholder msg =
     js ''Error extracting text from PDF: '' @ msg @ [LF, LF] @
     js ''This may be an image-based PDF or the file may be corrupted.''"

fun split_blank_line :: "jsstring \<Rightarrow> jsstring list" where
  \<comment> \<open>\<^verbatim>\<open>.split('\n\n')\<close>\<close>
  "split_blank_line (a # b # cs) =
     (if a = LF \<and> b = LF then [] # split_blank_line cs
      else (case split_blank_line (b # cs) of
              p # ps \<Rightarrow> (a # p) # ps
            | [] \<Rightarrow> [[a]]))"
| "split_blank_line cs = [cs]"

definition build_document :: "jsstring \<Rightarrow> jsstring \<Rightarrow> docx_par list" where
  "build_document orig extractedText =
     [Heading (js ''PDF to Word Conversion''), Subtitle (js ''Source: '' @ orig), Spacer] @
     map (\<lambda>p. if trim p \<noteq> [] then Para (trim p) else Spacer)
         (split_blank_line extractedText)"

record pending =
  tempFile :: upload_file
  fileName :: jsstring
  extractedText :: jsstring

definition truthy :: "jsstring option \<Rightarrow> bool" where
  \<comment> \<open>a string-or-null variable used as a condition\<close>
  "truthy v = (case v of None \<Rightarrow> False | Some s \<Rightarrow> s \<noteq> [])"

definition extracted_text :: "extract_outcome \<Rightarrow> jsstring" where
  \<comment> \<open>the inner \<^verbatim>\<open>try\<close>/\<^verbatim>\<open>catch\<close>: the value of \<^verbatim>\<open>extractedText\<close> after it\<close>
  "extracted_text ex =
     (case ex of
        Extracted t \<Rightarrow> cleanText t
      | ExtractThrows pdfError \<Rightarrow> extraction_placeholder (message pdfError))"

definition try_block ::
  "upload_outcome \<Rightarrow> extract_outcome \<Rightarrow> build_outcome \<Rightarrow> nat \<Rightarrow>
   jsstring option \<times> (js_error + pending)" where
  \<comment> \<open>the body of the outer \<^verbatim>\<open>try\<close> up to \<^verbatim>\<open>docx.generate(output)\<close>: the value of
      \<^verbatim>\<open>tempFilePath\<close> when it is left, and the exception that left it or what was set up\<close>
  "try_block up ex bd now =
     (case up of
        UploadError uploadError \<Rightarrow> (None, Inl uploadError)
      | NoFile \<Rightarrow> (None, Inl (Error (js ''No file uploaded'')))
      | Uploaded file \<Rightarrow>
          (case bd of
             BuildThrows e \<Rightarrow> (Some (path file), Inl e)
           | Built \<Rightarrow>
               (Some (path file),
                Inr \<lparr>tempFile = file, fileName = outputFileName now,
                     extractedText = extracted_text ex\<rparr>)))"

fun str_includes :: "jsstring \<Rightarrow> jsstring \<Rightarrow> bool" where
  \<comment> \<open>\<^verbatim>\<open>hay.includes(needle)\<close>\<close>
  "str_includes [] needle = (needle = [])"
| "str_includes (c # cs) needle =
     (take (length needle) (c # cs) = needle \<or> str_includes cs needle)"

definition errorMessage :: "js_error \<Rightarrow> jsstring" where
  "errorMessage error =
     (if code error = Some (js ''LIMIT_FILE_SIZE'')
      then js ''File too large. Maximum size is 10MB''
      else if str_includes (message error) (js ''Only PDF files'')
      then js ''Please select a valid PDF file''
      else if str_includes (message error) (js ''No file uploaded'')
      then js ''No file was uploaded''
      else js ''Failed to convert PDF'')"

definition development :: "env \<Rightarrow> bool" where
  \<comment> \<open>\<^verbatim>\<open>process.env.NODE_ENV === 'development'\<close>\<close>
  "development e = (NODE_ENV e = Some (js ''development''))"

definition finally_timers :: "jsstring option \<Rightarrow> timer list" where
  \<comment> \<open>the \<^verbatim>\<open>finally\<close> block\<close>
  "finally_timers tempFilePath =
     (if truthy tempFilePath then [Timer 1000 (the tempFilePath)] else [])"

definition convert_callback ::
  "env \<Rightarrow> upload_outcome \<Rightarrow> extract_outcome \<Rightarrow> build_outcome \<Rightarrow> stream_event \<Rightarrow> nat \<Rightarrow>
   result" where
  \<comment> \<open>the callback given to \<^verbatim>\<open>upload.single('pdfFile')\<close>, with the listeners it installs on
      the output stream\<close>
  "convert_callback e up ex bd ev now =
     (case try_block up ex bd now of
        (tempFilePath, Inl error) \<Rightarrow>
          \<lparr>response = Some \<lparr>status = 400,
             body = ErrorJson (errorMessage error)
                      (if development e then Some (message error) else None)\<rparr>,
           timers = finally_timers tempFilePath, uncaught = None, document = None\<rparr>
      | (tempFilePath, Inr p) \<Rightarrow>
          let doc = build_document (originalname (tempFile p)) (extractedText p)
          in (case ev of
                StreamClose \<Rightarrow>
                  \<lparr>response = Some \<lparr>status = 200,
                     body = ConvertedJson (js ''PDF converted successfully'')
                              (js ''/download/'' @ fileName p) (originalname (tempFile p))\<rparr>,
                   timers = finally_timers tempFilePath, uncaught = None,
                   document = Some doc\<rparr>
              | StreamError err \<Rightarrow>
                  \<lparr>response = None, timers = finally_timers tempFilePath,
                   uncaught = Some (Error (js ''Failed to write document: '' @ message err)),
                   document = Some doc\<rparr>))"

definition shutting_down :: result where
  "shutting_down = json_error 503 (js ''Server is shutting down'') None"

definition post_convert ::
  "server_state \<Rightarrow> env \<Rightarrow> upload_file list \<Rightarrow> extract_outcome \<Rightarrow> build_outcome \<Rightarrow>
   stream_event \<Rightarrow> nat \<Rightarrow> result" where
  \<comment> \<open>\<^verbatim>\<open>app.post('/convert')\<close>\<close>
  "post_convert st e parts ex bd ev now =
     (if isShuttingDown st then shutting_down
      else convert_callback e (multer_single parts) ex bd ev now)"

definition gracefulShutdown :: "server_state \<Rightarrow> server_state" where
  "gracefulShutdown st = st\<lparr>isShuttingDown := True\<rparr>"

definition after_request :: "server_state \<Rightarrow> result \<Rightarrow> server_state" where
  \<comment> \<open>\<^verbatim>\<open>process.on('uncaughtException')\<close> runs \<^verbatim>\<open>gracefulShutdown\<close>\<close>
  "after_request st r = (case uncaught r of None \<Rightarrow> st | Some error \<Rightarrow> gracefulShutdown st)"

section \<open>Download, retention and the other routes\<close>

definition is_digit :: "jschar \<Rightarrow> bool" where
  \<comment> \<open>the class \<^verbatim>\<open>\d\<close>\<close>
  "is_digit c = (0x30 \<le> c \<and> c \<le> 0x39)"

definition test_filename :: "jsstring \<Rightarrow> bool" where
  \<comment> \<open>\<^verbatim>\<open>/^converted-\d+\.docx$/.test(filename)\<close>; there is no \<^verbatim>\<open>m\<close> flag, so \<^verbatim>\<open>$\<close> is the end
      of the input. As \<^verbatim>\<open>.\<close> is no digit, the greedy \<^verbatim>\<open>\d+\<close> matches the whole run of digits
      or the match fails.\<close>
  "test_filename filename =
     (let p = js ''converted-''; r = drop (length p) filename
      in take (length p) filename = p \<and> takeWhile is_digit r \<noteq> [] \<and>
         dropWhile is_digit r = js ''.docx'')"

definition path_join :: "jsstring \<Rightarrow> jsstring \<Rightarrow> jsstring" where
  \<comment> \<open>\<^verbatim>\<open>path.join(dir, name)\<close> for a name without separators or dots to resolve\<close>
  "path_join dir n = dir @ js ''/'' @ n"

definition get_download ::
  "server_state \<Rightarrow> env \<Rightarrow> jsstring set \<Rightarrow> jsstring \<Rightarrow> js_error option \<Rightarrow> bool \<Rightarrow> nat \<Rightarrow>
   result" where
  \<comment> \<open>\<^verbatim>\<open>app.get('/download/:filename')\<close>: \<open>fs\<close> holds the paths that exist, \<open>err\<close> is the
      argument of the \<^verbatim>\<open>res.download\<close> callback and \<open>headersSent\<close> the flag it reads\<close>
  "get_download st e fs filename err headersSent now =
     (if isShuttingDown st then shutting_down
      else if \<not> test_filename filename then json_error 400 (js ''Invalid filename'') None
      else let filePath = path_join (outputDir e) filename in
        if filePath \<notin> fs then json_error 404 (js ''File not found or expired'') None
        else let downloadName = js ''document-'' @ digits now @ js ''.docx'' in
          (case err of
             Some error \<Rightarrow>
               if \<not> headersSent then json_error 500 (js ''Download failed'') None
               else \<lparr>response = Some \<lparr>status = 200,
                       body = PartialDownload filePath downloadName\<rparr>,
                     timers = [], uncaught = None, document = None\<rparr>
           | None \<Rightarrow>
               \<lparr>response = Some \<lparr>status = 200, body = Download filePath downloadName\<rparr>,
                timers = [Timer 120000 filePath], uncaught = None, document = None\<rparr>))"

datatype log = Log jsstring jsstring | LogError jsstring jsstring

definition basename :: "jsstring \<Rightarrow> jsstring" where
  "basename p = rev (takeWhile (\<lambda>c. c \<noteq> 0x2F) (rev p))"

definition unlinkSync ::
  "(jsstring \<Rightarrow> js_error option) \<Rightarrow> jsstring \<Rightarrow> jsstring set \<Rightarrow> js_error + jsstring set" where
  \<comment> \<open>\<open>u p\<close> is the error the operating system answers with for \<open>p\<close>, if any\<close>
  "unlinkSync u p fs = (case u p of Some e \<Rightarrow> Inl e | None \<Rightarrow> Inr (fs - {p}))"

definition safeFileCleanup ::
  "(jsstring \<Rightarrow> js_error option) \<Rightarrow> jsstring option \<Rightarrow> jsstring set \<Rightarrow>
   js_error + (jsstring set \<times> log list)" where
  \<comment> \<open>\<open>Inl\<close> would be an exception leaving the function\<close>
  "safeFileCleanup u filePath fs =
     (if truthy filePath \<and> the filePath \<in> fs
      then (case unlinkSync u (the filePath) fs of
              Inr fs' \<Rightarrow> Inr (fs', [Log (js ''File cleaned up:'') (basename (the filePath))])
            | Inl error \<Rightarrow> Inr (fs, [LogError (js ''Cleanup failed:'') (message error)]))
      else Inr (fs, []))"

fun fire_all ::
  "(jsstring \<Rightarrow> js_error option) \<Rightarrow> timer list \<Rightarrow> jsstring set \<Rightarrow> js_error + jsstring set" where
  \<comment> \<open>the scheduled callbacks run, in order\<close>
  "fire_all u [] fs = Inr fs"
| "fire_all u (Timer delay p # ts) fs =
     (case safeFileCleanup u (Some p) fs of
        Inl e \<Rightarrow> Inl e
      | Inr (fs', l) \<Rightarrow> fire_all u ts fs')"

definition get_health :: "server_state \<Rightarrow> result" where
  \<comment> \<open>\<^verbatim>\<open>app.get('/health')\<close>\<close>
  "get_health st =
     \<lparr>response = Some \<lparr>status = 200, body = HealthJson\<rparr>, timers = [], uncaught = None,
      document = None\<rparr>"

definition error_middleware :: "bool \<Rightarrow> js_error \<Rightarrow> result option" where
  \<comment> \<open>the four-argument middleware; \<open>None\<close> is \<^verbatim>\<open>next(error)\<close>\<close>
  "error_middleware headersSent error =
     (if headersSent then None
      else if name error = js ''MulterError'' \<and> code error = Some (js ''LIMIT_FILE_SIZE'')
      then Some (json_error 400 (js ''File too large (max 10MB)'') None)
      else Some (json_error 500 (js ''Internal server error'') None))"

definition express_static_root :: "bool \<Rightarrow> result option" where
  \<comment> \<open>\<^verbatim>\<open>app.use(express.static('public'))\<close>, registered before every route, on \<^verbatim>\<open>GET /\<close>:
      the static middleware answers a directory request with the directory's
      \<^verbatim>\<open>index.html\<close> when that file exists, and passes the request on (\<open>None\<close>) when it
      does not. \<open>index_exists\<close> says whether \<^verbatim>\<open>public/index.html\<close> exists.\<close>
  "express_static_root index_exists =
     (if index_exists
      then Some \<lparr>response = Some \<lparr>status = 200, body = SendFile (js ''public/index.html'')\<rparr>,
                 timers = [], uncaught = None, document = None\<rparr>
      else None)"

definition get_root :: "server_state \<Rightarrow> bool \<Rightarrow> result" where
  \<comment> \<open>the handler \<^verbatim>\<open>app.get('/')\<close>: a \<^verbatim>\<open>res.sendFile\<close> that finds no file hands its error
      to \<^verbatim>\<open>next\<close>, that is to the error middleware\<close>
  "get_root st index_exists =
     (if isShuttingDown st then shutting_down
      else if index_exists
      then \<lparr>response = Some \<lparr>status = 200, body = SendFile (js ''public/index.html'')\<rparr>,
            timers = [], uncaught = None, document = None\<rparr>
      else (case error_middleware False
                   \<lparr>name = js ''Error'', code = Some (js ''ENOENT''),
                    message = js ''ENOENT: no such file or directory''\<rparr> of
              Some r \<Rightarrow> r
            | None \<Rightarrow> \<lparr>response = None, timers = [], uncaught = None, document = None\<rparr>))"

definition route_root :: "server_state \<Rightarrow> bool \<Rightarrow> result" where
  \<comment> \<open>a \<^verbatim>\<open>GET /\<close> request through the middleware chain: the static middleware first, the
      route handler only when that one passes the request on\<close>
  "route_root st index_exists =
     (case express_static_root index_exists of
        Some r \<Rightarrow> r
      | None \<Rightarrow> get_root st index_exists)"

definition not_found :: result where
  "not_found = json_error 404 (js ''Not found'') None"

definition request_timeout :: "bool \<Rightarrow> result option" where
  "request_timeout headersSent =
     (if \<not> headersSent then Some (json_error 408 (js ''Request timeout'') None) else None)"

definition message_class :: "js_error \<Rightarrow> bool \<times> bool \<times> bool" where
  \<comment> \<open>what the \<^verbatim>\<open>catch\<close> block of the conversion reads of an error to choose its text\<close>
  "message_class error =
     (code error = Some (js ''LIMIT_FILE_SIZE''),
      str_includes (message error) (js ''Only PDF files''),
      str_includes (message error) (js ''No file uploaded''))"

definition admissible :: "upload_file list \<Rightarrow> bool" where
  \<comment> \<open>the Gatekeeper contract in the spec's words: exactly one file, of the accepted type,
      of at most 10 MB\<close>
  "admissible parts =
     (case parts of
        [] \<Rightarrow> False
      | file # others \<Rightarrow>
          others = [] \<and> mimetype file = js ''application/pdf'' \<and>
          size_f file \<le> 10 * 1024 * 1024)"

section \<open>Sample requests\<close>

definition messy_text :: jsstring where
  "messy_text =
     js ''  a  b '' @ [CR, LF, TAB, TAB] @ js ''c'' @ [CR, CR, CR, LF, CR] @ js ''d  ''"

definition hello_world :: jsstring where
  "hello_world = js ''Hello'' @ [LF] @ js ''World''"

definition pdf_file :: upload_file where
  "pdf_file = \<lparr>originalname = js ''report.pdf'', mimetype = js ''application/pdf'',
               size_f = 2048, path = js ''uploads/pdfFile-1700000000000-123456789.pdf''\<rparr>"

definition png_file :: upload_file where
  "png_file = \<lparr>originalname = js ''photo.png'', mimetype = js ''image/png'',
               size_f = 2048, path = js ''uploads/pdfFile-1700000000000-987654321.png''\<rparr>"

definition production :: env where
  "production = \<lparr>NODE_ENV = Some (js ''production''), outputDir = js ''/app/output''\<rparr>"

definition development_mode :: env where
  "development_mode =
     \<lparr>NODE_ENV = Some (js ''development''), outputDir = js ''/app/output''\<rparr>"

definition running :: server_state where
  "running = \<lparr>isShuttingDown = False\<rparr>"

definition stopping :: server_state where
  "stopping = \<lparr>isShuttingDown = True\<rparr>"

definition corrupted :: js_error where
  "corrupted = Error (js ''Invalid PDF structure'')"

definition disk_full :: js_error where
  "disk_full = Error (js ''ENOSPC: no space left on device, write'')"

definition aborted :: js_error where
  "aborted = Error (js ''Request aborted'')"

definition unlink_busy :: "jsstring \<Rightarrow> js_error option" where
  "unlink_busy p = Some (Error (js ''EBUSY: resource busy or locked, unlink''))"

definition converted_docx :: jsstring where
  "converted_docx = js ''converted-1700000000000.docx''"

declare strip_lines.simps(2) [simp del]
declare digits.simps [simp del]


section \<open>Text Normalizer: the guarantee and idempotence\<close>

lemma is_lt_ws: "is_lt c \<Longrightarrow> is_ws c"
  by (auto simp: is_lt_def is_ws_def)

lemma is_blank_ws: "is_blank c \<Longrightarrow> is_ws c"
  by (auto simp: is_blank_def is_ws_def)

lemma is_blank_not_lt: "is_blank c \<Longrightarrow> \<not> is_lt c"
  by (auto simp: is_blank_def is_lt_def SP_def TAB_def LF_def CR_def)

lemma is_lt_LF: "is_lt LF"
  by (simp add: is_lt_def)

lemma is_blank_SP: "is_blank SP"
  by (simp add: is_blank_def)

lemma CR_not_LF: "CR \<noteq> LF" and CR_not_SP: "CR \<noteq> SP"
  by (simp_all add: CR_def LF_def SP_def)

subsection \<open>Runs and adjacent pairs\<close>

lemma has_run_2_iff: "has_run P 2 s \<longleftrightarrow> \<not> successively (\<lambda>a b. \<not> (P a \<and> P b)) s"
proof (induction s)
  case Nil
  show ?case by simp
next
  case (Cons c cs)
  show ?case
  proof (cases cs)
    case Nil
    then show ?thesis by simp
  next
    case (Cons d ds)
    with Cons.IH show ?thesis by (auto simp: numeral_2_eq_2)
  qed
qed

lemma has_run_3_2: "has_run P 3 s \<Longrightarrow> has_run P 2 s"
proof (induction s)
  case Nil
  then show ?case by simp
next
  case (Cons c cs)
  then show ?case
    by (cases cs; cases "tl cs") (auto simp: numeral_3_eq_3 numeral_2_eq_2)
qed

lemma dropWhile_all_Nil:
  assumes "\<forall>x \<in> set (dropWhile P xs). P x"
  shows "dropWhile P xs = []"
proof (rule ccontr)
  assume ne: "dropWhile P xs \<noteq> []"
  then have "\<not> P (hd (dropWhile P xs))" by (rule hd_dropWhile)
  moreover have "hd (dropWhile P xs) \<in> set (dropWhile P xs)" using ne by (rule hd_in_set)
  ultimately show False using assms by blast
qed

lemma set_dropWhile_subset: "set (dropWhile P xs) \<subseteq> set xs"
  using set_dropWhileD by fastforce

lemma successively_drop: "successively P xs \<Longrightarrow> successively P (drop n xs)"
proof (induction n arbitrary: xs)
  case 0
  then show ?case by simp
next
  case (Suc n)
  then show ?case by (cases xs) (auto simp: successively_Cons)
qed

lemma successively_dropWhile: "successively P xs \<Longrightarrow> successively P (dropWhile Q xs)"
  by (simp add: dropWhile_eq_drop successively_drop)


subsection \<open>The first four replacements\<close>

lemma CR_notin_cr_to_lf: "CR \<notin> set (cr_to_lf s)"
  by (auto simp: cr_to_lf_def CR_not_LF)

lemma set_collapse_newlines: "set (collapse_newlines s) \<subseteq> insert LF (set s)"
proof (induction s rule: collapse_newlines.induct)
  case 1
  show ?case by simp
next
  case (2 c cs)
  show ?case
  proof (cases "3 \<le> length (takeWhile (\<lambda>x. x = LF) (c # cs))")
    case True
    have "set (dropWhile (\<lambda>x. x = LF) (c # cs)) \<subseteq> set (c # cs)"
      by (rule set_dropWhile_subset)
    with True 2 show ?thesis by auto
  next
    case False
    with 2 show ?thesis by auto
  qed
qed

lemma set_collapse_blanks: "set (collapse_blanks s) \<subseteq> insert SP (set s)"
proof (induction s rule: collapse_blanks.induct)
  case 1
  show ?case by simp
next
  case (2 c cs)
  show ?case
  proof (cases "2 \<le> length (takeWhile is_blank (c # cs))")
    case True
    have "set (dropWhile is_blank (c # cs)) \<subseteq> set (c # cs)"
      by (rule set_dropWhile_subset)
    with True 2 show ?thesis by auto
  next
    case False
    with 2 show ?thesis by auto
  qed
qed

lemma collapse_blanks_nonblank: "\<not> is_blank d \<Longrightarrow> collapse_blanks (d # ds) = d # collapse_blanks ds"
  by simp

lemma single_blanks_collapse: "single_blanks (collapse_blanks s)"
proof (induction s rule: collapse_blanks.induct)
  case 1
  show ?case by (simp add: single_blanks_def)
next
  case (2 c cs)
  show ?case
  proof (cases "2 \<le> length (takeWhile is_blank (c # cs))")
    case True
    let ?r = "dropWhile is_blank (c # cs)"
    have ih: "single_blanks (collapse_blanks ?r)" using 2(1) True by simp
    have "collapse_blanks ?r = [] \<or> \<not> is_blank (hd (collapse_blanks ?r))"
    proof (cases ?r)
      case Nil
      then show ?thesis by simp
    next
      case (Cons d ds)
      then have "\<not> is_blank d" using hd_dropWhile [of is_blank "c # cs"] by simp
      then show ?thesis using Cons by simp
    qed
    with ih True show ?thesis
      by (auto simp: single_blanks_def successively_Cons)
  next
    case False
    have ih: "single_blanks (collapse_blanks cs)" using 2(2) False by simp
    have "collapse_blanks cs = [] \<or> \<not> (is_blank c \<and> is_blank (hd (collapse_blanks cs)))"
    proof (cases cs)
      case Nil
      then show ?thesis by simp
    next
      case (Cons d ds)
      show ?thesis
      proof (cases "is_blank c \<and> is_blank d")
        case True
        with Cons False show ?thesis by simp
      next
        case nb: False
        show ?thesis
        proof (cases "is_blank c")
          case True
          with nb have "\<not> is_blank d" by simp
          with Cons show ?thesis by simp
        next
          case False
          then show ?thesis by simp
        qed
      qed
    qed
    with ih False show ?thesis
      by (auto simp: single_blanks_def successively_Cons)
  qed
qed


subsection \<open>Stripping the lines\<close>

lemma ws_dollar_Some:
  "ws_dollar s = Some k \<Longrightarrow>
     0 < k \<and> k \<le> length s \<and> (\<forall>c \<in> set (take k s). is_ws c) \<and>
     (drop k s = [] \<or> is_lt (hd (drop k s)))"
proof (induction s arbitrary: k)
  case Nil
  then show ?case by simp
next
  case (Cons c cs)
  show ?case
  proof (cases "ws_dollar cs")
    case None
    with Cons.prems show ?thesis by (auto split: if_splits)
  next
    case (Some j)
    with Cons.prems have k: "k = Suc j" and c: "is_ws c" by (auto split: if_splits)
    from Cons.IH [OF Some] c show ?thesis unfolding k by simp
  qed
qed

lemma ws_dollar_None_ws:
  "ws_dollar (c # cs) = None \<Longrightarrow> is_ws c \<Longrightarrow> cs \<noteq> [] \<and> \<not> is_lt (hd cs) \<and> ws_dollar cs = None"
  by (auto split: option.splits if_splits)

lemma ws_dollar_all_ws: "s \<noteq> [] \<Longrightarrow> \<forall>c \<in> set s. is_ws c \<Longrightarrow> ws_dollar s \<noteq> None"
proof (induction s)
  case Nil
  then show ?case by simp
next
  case (Cons c cs)
  then show ?case by (cases cs) (auto split: option.splits)
qed

lemma ws_dollar_nonws: "\<not> is_ws d \<Longrightarrow> ws_dollar (d # ds) = None"
  by simp

lemma strip_lines_nonws: "\<not> is_ws d \<Longrightarrow> strip_lines b (d # ds) = d # strip_lines False ds"
proof -
  assume d: "\<not> is_ws d"
  then have "\<not> is_lt d" using is_lt_ws by blast
  with d show ?thesis by (simp add: strip_lines.simps(2))
qed

lemma strip_lines_cases [case_names bol eol keep]:
  obtains
    (bol) "b" "is_ws c"
      "strip_lines b (c # cs) =
         strip_lines (is_lt (last (takeWhile is_ws (c # cs)))) (dropWhile is_ws (c # cs))"
  | (eol) k where "\<not> (b \<and> is_ws c)" "ws_dollar (c # cs) = Some k"
      "strip_lines b (c # cs) = strip_lines (is_lt ((c # cs) ! (k - 1))) (drop k (c # cs))"
  | (keep) "\<not> (b \<and> is_ws c)" "ws_dollar (c # cs) = None"
      "strip_lines b (c # cs) = c # strip_lines (is_lt c) cs"
proof (cases "b \<and> is_ws c")
  case True
  have "strip_lines b (c # cs) =
          strip_lines (is_lt (last (takeWhile is_ws (c # cs)))) (dropWhile is_ws (c # cs))"
    by (subst strip_lines.simps(2)) (simp only: True simp_thms if_True)
  with True bol show ?thesis by blast
next
  case False
  show ?thesis
  proof (cases "ws_dollar (c # cs)")
    case None
    have "strip_lines b (c # cs) = c # strip_lines (is_lt c) cs"
      by (subst strip_lines.simps(2)) (simp only: False None simp_thms if_False option.case)
    with False None keep show ?thesis by blast
  next
    case (Some k)
    have "strip_lines b (c # cs) = strip_lines (is_lt ((c # cs) ! (k - 1))) (drop k (c # cs))"
      by (subst strip_lines.simps(2)) (simp only: False Some simp_thms if_False option.case)
    with False Some eol show ?thesis by blast
  qed
qed

lemma set_strip_lines: "set (strip_lines b s) \<subseteq> set s"
proof (induction b s rule: strip_lines.induct)
  case (1 bol)
  show ?case by simp
next
  case (2 bol c cs)
  show ?case
  proof (cases rule: strip_lines_cases [of bol c cs])
    case bol
    have ih: "set (strip_lines (is_lt (last (takeWhile is_ws (c # cs)))) (dropWhile is_ws (c # cs)))
              \<subseteq> set (dropWhile is_ws (c # cs))"
      by (rule 2(1) [OF conjI [OF bol(1) bol(2)]])
    have sub: "set (dropWhile is_ws (c # cs)) \<subseteq> set (c # cs)"
      by (rule set_dropWhile_subset)
    show ?thesis unfolding bol(3) using ih sub by (rule subset_trans)
  next
    case (eol k)
    have ih: "set (strip_lines (is_lt ((c # cs) ! (k - 1))) (drop k (c # cs)))
              \<subseteq> set (drop k (c # cs))"
      by (rule 2(3) [OF eol(1,2)])
    have sub: "set (drop k (c # cs)) \<subseteq> set (c # cs)" by (rule set_drop_subset)
    show ?thesis unfolding eol(3) using ih sub by (rule subset_trans)
  next
    case keep
    have ih: "set (strip_lines (is_lt c) cs) \<subseteq> set cs" by (rule 2(2) [OF keep(1,2)])
    show ?thesis unfolding keep(3) using ih by auto
  qed
qed

lemma strip_lines_Nil_ws: "strip_lines b s = [] \<Longrightarrow> \<forall>c \<in> set s. is_ws c"
proof (induction b s rule: strip_lines.induct)
  case (1 bol)
  show ?case by simp
next
  case (2 bol c cs)
  show ?case
  proof (cases rule: strip_lines_cases [of bol c cs])
    case bol
    have "strip_lines (is_lt (last (takeWhile is_ws (c # cs)))) (dropWhile is_ws (c # cs)) = []"
      using 2(4) unfolding bol(3) .
    then have "\<forall>x \<in> set (dropWhile is_ws (c # cs)). is_ws x"
      by (rule 2(1) [OF conjI [OF bol(1) bol(2)]])
    then have "dropWhile is_ws (c # cs) = []" by (rule dropWhile_all_Nil)
    then show ?thesis by (simp only: dropWhile_eq_Nil_conv)
  next
    case (eol k)
    have "strip_lines (is_lt ((c # cs) ! (k - 1))) (drop k (c # cs)) = []"
      using 2(4) unfolding eol(3) .
    then have d: "\<forall>x \<in> set (drop k (c # cs)). is_ws x"
      by (rule 2(3) [OF eol(1,2)])
    from ws_dollar_Some [OF eol(2)] have t: "\<forall>x \<in> set (take k (c # cs)). is_ws x"
      by (rule conjunct1 [OF conjunct2 [OF conjunct2]])
    have "set (take k (c # cs)) \<union> set (drop k (c # cs)) = set (c # cs)"
      unfolding set_append [symmetric] append_take_drop_id ..
    with d t show ?thesis by blast
  next
    case keep
    have "c # strip_lines (is_lt c) cs = []" using 2(4) unfolding keep(3) .
    then show ?thesis by simp
  qed
qed

lemma strip_lines_hd:
  assumes ne: "strip_lines True s \<noteq> []"
  shows "\<not> is_ws (hd (strip_lines True s))"
proof (cases s)
  case Nil
  with ne show ?thesis by simp
next
  case (Cons c cs)
  show ?thesis
  proof (cases "is_ws c")
    case False
    with Cons show ?thesis by (simp add: strip_lines_nonws)
  next
    case True
    let ?r = "dropWhile is_ws (c # cs)"
    let ?b = "is_lt (last (takeWhile is_ws (c # cs)))"
    have eq: "strip_lines True s = strip_lines ?b ?r"
      unfolding Cons using True by (cases rule: strip_lines_cases [of True c cs]) simp_all
    show ?thesis
    proof (cases ?r)
      case Nil
      with eq ne show ?thesis by simp
    next
      case r: (Cons d ds)
      then have "\<not> is_ws d" using hd_dropWhile [of is_ws "c # cs"] by simp
      with eq r show ?thesis by (simp add: strip_lines_nonws)
    qed
  qed
qed

lemma strip_lines_last: "strip_lines b s \<noteq> [] \<Longrightarrow> \<not> is_ws (last (strip_lines b s))"
proof (induction b s rule: strip_lines.induct)
  case (1 bol)
  then show ?case by simp
next
  case (2 bol c cs)
  show ?case
  proof (cases rule: strip_lines_cases [of bol c cs])
    case bol
    with 2(1) 2(4) show ?thesis by simp
  next
    case (eol k)
    with 2(3) [OF eol(1,2)] 2(4) show ?thesis by simp
  next
    case keep
    show ?thesis
    proof (cases "strip_lines (is_lt c) cs = []")
      case ne: False
      with 2(2) [OF keep(1,2) ne] keep(3) show ?thesis by simp
    next
      case e: True
      have "\<not> is_ws c"
      proof
        assume c: "is_ws c"
        from strip_lines_Nil_ws [OF e] c have "\<forall>x \<in> set (c # cs). is_ws x" by simp
        from ws_dollar_all_ws [OF _ this] keep(2) show False by simp
      qed
      with keep(3) e show ?thesis by simp
    qed
  qed
qed


lemma strip_lines_False_hd:
  assumes c: "is_ws c" and n: "ws_dollar (c # cs) = None"
  shows "strip_lines False cs \<noteq> [] \<and> hd (strip_lines False cs) = hd cs \<and> \<not> is_lt (hd cs)"
proof -
  from ws_dollar_None_ws [OF n c] obtain d ds
    where cs: "cs = d # ds" and d: "\<not> is_lt d" and nd: "ws_dollar (d # ds) = None"
    by (cases cs) auto
  have "strip_lines False (d # ds) = d # strip_lines (is_lt d) ds"
    using nd by (cases rule: strip_lines_cases [of False d ds]) simp_all
  with cs d show ?thesis by simp
qed

lemma lt_isolated_strip_lines: "lt_isolated (strip_lines b s)"
proof (induction b s rule: strip_lines.induct)
  case (1 bol)
  show ?case by (simp add: lt_isolated_def)
next
  case (2 bol c cs)
  show ?case
  proof (cases rule: strip_lines_cases [of bol c cs])
    case bol
    with 2(1) show ?thesis by simp
  next
    case (eol k)
    with 2(3) [OF eol(1,2)] show ?thesis by simp
  next
    case keep
    let ?o = "strip_lines (is_lt c) cs"
    have ih: "lt_isolated ?o" using 2(2) [OF keep(1,2)] .
    have "?o = [] \<or> (\<not> (is_lt c \<and> is_ws (hd ?o)) \<and> \<not> (is_ws c \<and> is_lt (hd ?o)))"
    proof (cases "is_ws c")
      case False
      then have "\<not> is_lt c" using is_lt_ws by blast
      with False show ?thesis by simp
    next
      case ws: True
      show ?thesis
      proof (cases "is_lt c")
        case True
        then show ?thesis using strip_lines_hd [of cs] is_lt_ws by auto
      next
        case False
        with strip_lines_False_hd [OF ws keep(2)] show ?thesis by simp
      qed
    qed
    with ih keep(3) show ?thesis
      by (auto simp: lt_isolated_def successively_Cons)
  qed
qed

lemma single_blanks_strip_lines: "single_blanks s \<Longrightarrow> single_blanks (strip_lines b s)"
proof (induction b s rule: strip_lines.induct)
  case (1 bol)
  show ?case by (simp add: single_blanks_def)
next
  case (2 bol c cs)
  show ?case
  proof (cases rule: strip_lines_cases [of bol c cs])
    case bol
    from 2(4) have "single_blanks (dropWhile is_ws (c # cs))"
      unfolding single_blanks_def by (rule successively_dropWhile)
    with 2(1) bol show ?thesis by simp
  next
    case (eol k)
    from 2(4) have "single_blanks (drop k (c # cs))"
      unfolding single_blanks_def by (rule successively_drop)
    with 2(3) [OF eol(1,2)] eol(3) show ?thesis by simp
  next
    case keep
    let ?o = "strip_lines (is_lt c) cs"
    from 2(4) have tl: "single_blanks cs" and pair: "cs = [] \<or> \<not> (is_blank c \<and> is_blank (hd cs))"
      by (auto simp: single_blanks_def successively_Cons)
    have ih: "single_blanks ?o" using 2(2) [OF keep(1,2) tl] .
    have "?o = [] \<or> \<not> (is_blank c \<and> is_blank (hd ?o))"
    proof (cases "is_blank c")
      case False
      then show ?thesis by simp
    next
      case True
      then have ws: "is_ws c" and nl: "\<not> is_lt c"
        by (simp_all add: is_blank_ws is_blank_not_lt)
      from strip_lines_False_hd [OF ws keep(2)] nl pair show ?thesis by auto
    qed
    with ih keep(3) show ?thesis
      by (auto simp: single_blanks_def successively_Cons)
  qed
qed

subsection \<open>Trimming\<close>

lemma dropWhile_hd_id: "s = [] \<or> \<not> P (hd s) \<Longrightarrow> dropWhile P s = s"
  by (cases s) simp_all

lemma trim_id:
  assumes "trimmed s"
  shows "trim s = s"
proof -
  from assms have h: "s = [] \<or> \<not> is_ws (hd s)" and l: "s = [] \<or> \<not> is_ws (last s)"
    by (auto simp: trimmed_def)
  have "dropWhile is_ws s = s" using h by (rule dropWhile_hd_id)
  moreover have "dropWhile is_ws (rev s) = rev s"
    using l by (intro dropWhile_hd_id) (simp add: hd_rev)
  ultimately show ?thesis by (simp add: trim_def)
qed

lemma trimmed_strip_lines: "trimmed (strip_lines True s)"
  using strip_lines_hd [of s] strip_lines_last [of True s] by (auto simp: trimmed_def)

subsection \<open>Normalized text is a fixed point\<close>

lemma crlf_to_lf_id: "CR \<notin> set s \<Longrightarrow> crlf_to_lf s = s"
  by (induction s rule: crlf_to_lf.induct) auto

lemma cr_to_lf_id: "CR \<notin> set s \<Longrightarrow> cr_to_lf s = s"
  unfolding cr_to_lf_def by (rule map_idI) auto

lemma collapse_newlines_id:
  "successively (\<lambda>a b. \<not> (a = LF \<and> b = LF)) s \<Longrightarrow> collapse_newlines s = s"
proof (induction s)
  case Nil
  show ?case by simp
next
  case (Cons c cs)
  then have ih: "collapse_newlines cs = cs" and p: "cs = [] \<or> \<not> (c = LF \<and> hd cs = LF)"
    by (auto simp: successively_Cons)
  have "\<not> 3 \<le> length (takeWhile (\<lambda>x. x = LF) (c # cs))"
    using p by (cases cs) auto
  with ih show ?case by simp
qed

lemma collapse_blanks_id: "single_blanks s \<Longrightarrow> collapse_blanks s = s"
proof (induction s)
  case Nil
  show ?case by simp
next
  case (Cons c cs)
  then have ih: "collapse_blanks cs = cs" and p: "cs = [] \<or> \<not> (is_blank c \<and> is_blank (hd cs))"
    by (auto simp: single_blanks_def successively_Cons)
  have "\<not> 2 \<le> length (takeWhile is_blank (c # cs))"
    using p by (cases cs) auto
  with ih show ?case by simp
qed

lemma ws_dollar_isolated:
  "lt_isolated s \<Longrightarrow> s \<noteq> [] \<Longrightarrow> \<not> is_ws (last s) \<Longrightarrow> ws_dollar s = None"
proof (induction s)
  case Nil
  then show ?case by simp
next
  case (Cons c cs)
  show ?case
  proof (cases cs)
    case Nil
    with Cons.prems show ?thesis by simp
  next
    case (Cons d ds)
    with Cons.prems Cons.IH have "ws_dollar cs = None" and "\<not> (is_ws c \<and> is_lt d)"
      by (auto simp: lt_isolated_def)
    with Cons show ?thesis by simp
  qed
qed

lemma strip_lines_id:
  "lt_isolated s \<Longrightarrow> s = [] \<or> \<not> is_ws (last s) \<Longrightarrow> b \<longrightarrow> s = [] \<or> \<not> is_ws (hd s) \<Longrightarrow>
   strip_lines b s = s"
proof (induction s arbitrary: b)
  case Nil
  show ?case by simp
next
  case (Cons c cs)
  from Cons.prems(1) have iso: "lt_isolated cs"
    and pair: "cs = [] \<or> \<not> (is_lt c \<and> is_ws (hd cs))"
    by (auto simp: lt_isolated_def successively_Cons)
  from Cons.prems(2) have last: "cs = [] \<or> \<not> is_ws (last cs)" by auto
  have ih: "strip_lines (is_lt c) cs = cs"
    using Cons.IH [OF iso last] pair by blast
  have n: "ws_dollar (c # cs) = None"
    using ws_dollar_isolated [OF Cons.prems(1)] Cons.prems(2) by simp
  have nb: "\<not> (b \<and> is_ws c)" using Cons.prems(3) by simp
  have "strip_lines b (c # cs) = c # strip_lines (is_lt c) cs"
    using nb n by (cases rule: strip_lines_cases [of b c cs]) simp_all
  with ih show ?case by simp
qed


lemma normalized_placeholders: "normalized no_text_found" "normalized appears_empty"
  by (simp_all add: normalized_def no_text_found_def appears_empty_def js_def CR_def
      single_blanks_def lt_isolated_def trimmed_def is_blank_def is_lt_def is_ws_def SP_def TAB_def LF_def)

lemma normalized_pipeline:
  assumes "r = trim (strip_lines True (collapse_blanks (collapse_newlines (cr_to_lf (crlf_to_lf s)))))"
    and "r \<noteq> []"
  shows "normalized r"
proof -
  let ?z = "collapse_blanks (collapse_newlines (cr_to_lf (crlf_to_lf s)))"
  have r: "r = strip_lines True ?z"
    using assms(1) trim_id [OF trimmed_strip_lines] by simp
  have "CR \<notin> set ?z"
    using set_collapse_blanks [of "collapse_newlines (cr_to_lf (crlf_to_lf s))"]
      set_collapse_newlines [of "cr_to_lf (crlf_to_lf s)"]
      CR_notin_cr_to_lf [of "crlf_to_lf s"] CR_not_LF CR_not_SP
    by blast
  then have "CR \<notin> set r" using set_strip_lines [of True ?z] r by blast
  moreover have "single_blanks r"
    unfolding r by (rule single_blanks_strip_lines) (rule single_blanks_collapse)
  moreover have "lt_isolated r" unfolding r by (rule lt_isolated_strip_lines)
  moreover have "trimmed r" unfolding r by (rule trimmed_strip_lines)
  ultimately show ?thesis using assms(2) by (simp add: normalized_def)
qed

lemma cleanText_normalized: "normalized (cleanText text)"
proof (cases "text")
  case None
  then show ?thesis by (simp add: cleanText_def normalized_placeholders)
next
  case (Some s)
  then show ?thesis
    using normalized_pipeline [OF refl, of s]
    by (simp add: cleanText_def Let_def normalized_placeholders)
qed

lemma cleanText_fixed_point:
  assumes "normalized y"
  shows "cleanText (Some y) = y"
proof -
  from assms have ne: "y \<noteq> []" and cr: "CR \<notin> set y" and sb: "single_blanks y"
    and iso: "lt_isolated y" and tr: "trimmed y"
    by (simp_all add: normalized_def)
  have nl: "successively (\<lambda>a b. \<not> (a = LF \<and> b = LF)) y"
    using iso unfolding lt_isolated_def
    by (rule successively_mono) (use is_lt_LF is_lt_ws in blast)
  have 1: "crlf_to_lf y = y" using cr by (rule crlf_to_lf_id)
  have 2: "cr_to_lf y = y" using cr by (rule cr_to_lf_id)
  have 3: "collapse_newlines y = y" using nl by (rule collapse_newlines_id)
  have 4: "collapse_blanks y = y" using sb by (rule collapse_blanks_id)
  have 5: "strip_lines True y = y"
    using iso tr ne by (intro strip_lines_id) (simp_all add: trimmed_def)
  have 6: "trim y = y" using tr by (rule trim_id)
  show ?thesis using ne by (simp add: cleanText_def 1 2 3 4 5 6)
qed

text \<open>
  Claim C1. For every argument, a string or not, \<open>cleanText\<close> returns a string that is not
  empty, holds no carriage return, no three consecutive line breaks (of any of the four
  line terminators) and no two consecutive spaces or tabs.
\<close>

theorem cleanText_guarantee:
  "cleanText text \<noteq> [] \<and> CR \<notin> set (cleanText text) \<and>
   \<not> has_run is_lt 3 (cleanText text) \<and> \<not> has_run is_blank 2 (cleanText text)"
proof -
  let ?y = "cleanText text"
  have n: "normalized ?y" by (rule cleanText_normalized)
  then have iso: "lt_isolated ?y" and sb: "single_blanks ?y" by (simp_all add: normalized_def)
  have "successively (\<lambda>a b. \<not> (is_lt a \<and> is_lt b)) ?y"
    using iso unfolding lt_isolated_def
    by (rule successively_mono) (use is_lt_ws in blast)
  then have "\<not> has_run is_lt 2 ?y" by (simp add: has_run_2_iff)
  then have "\<not> has_run is_lt 3 ?y" using has_run_3_2 by blast
  moreover have "\<not> has_run is_blank 2 ?y"
    using sb by (simp add: has_run_2_iff single_blanks_def)
  ultimately show ?thesis using n by (simp add: normalized_def)
qed

theorem cleanText_guarantee_witness:
  "cleanText (Some messy_text) = js ''a b'' @ [LF] @ js ''cd'' \<and>
   CR \<notin> set (cleanText (Some messy_text)) \<and>
   \<not> has_run is_lt 3 (cleanText (Some messy_text)) \<and>
   \<not> has_run is_blank 2 (cleanText (Some messy_text))"
proof -
  have "cleanText (Some messy_text) = js ''a b'' @ [LF] @ js ''cd''"
    by code_simp
  then show ?thesis
    using cleanText_guarantee [of "Some messy_text"] by simp
qed

text \<open>
  The result is stronger than the guarantee asks: no two line terminators are adjacent,
  because the per-line strip removes every blank line together with the breaks around it.
\<close>

lemma cleanText_no_adjacent_line_breaks: "\<not> has_run is_lt 2 (cleanText text)"
proof -
  have "lt_isolated (cleanText text)"
    using cleanText_normalized [of "text"] by (simp add: normalized_def)
  then have "successively (\<lambda>a b. \<not> (is_lt a \<and> is_lt b)) (cleanText text)"
    unfolding lt_isolated_def
    by (rule successively_mono) (use is_lt_ws in blast)
  then show ?thesis by (simp add: has_run_2_iff)
qed

text \<open>
  Claim C2. \<open>cleanText\<close> is idempotent: applied to its own result, it returns it unchanged.
\<close>

theorem cleanText_idempotent: "cleanText (Some (cleanText text)) = cleanText text"
  by (rule cleanText_fixed_point) (rule cleanText_normalized)

theorem cleanText_idempotent_witness:
  "cleanText (Some messy_text) = js ''a b'' @ [LF] @ js ''cd'' \<and>
   cleanText (Some (js ''a b'' @ [LF] @ js ''cd'')) = js ''a b'' @ [LF] @ js ''cd''"
proof -
  have e: "cleanText (Some messy_text) = js ''a b'' @ [LF] @ js ''cd''"
    by code_simp
  show ?thesis
    using cleanText_idempotent [of "Some messy_text"] unfolding e by simp
qed

section \<open>The conversion request, case by case\<close>

lemma finally_timers_None: "finally_timers None = []"
  by (simp add: finally_timers_def truthy_def)

lemma convert_callback_UploadError:
  "convert_callback e (UploadError err) ex bd ev now =
     json_error 400 (errorMessage err) (if development e then Some (message err) else None)"
  by (simp add: convert_callback_def try_block_def json_error_def finally_timers_None)

lemma convert_callback_NoFile:
  "convert_callback e NoFile ex bd ev now =
     json_error 400 (errorMessage (Error (js ''No file uploaded'')))
       (if development e then Some (js ''No file uploaded'') else None)"
  by (simp add: convert_callback_def try_block_def json_error_def finally_timers_None Error_def)

lemma convert_callback_BuildThrows:
  "convert_callback e (Uploaded file) ex (BuildThrows err) ev now =
     \<lparr>response = Some \<lparr>status = 400,
        body = ErrorJson (errorMessage err) (if development e then Some (message err) else None)\<rparr>,
      timers = finally_timers (Some (path file)), uncaught = None, document = None\<rparr>"
  by (simp add: convert_callback_def try_block_def)

lemma convert_callback_StreamClose:
  "convert_callback e (Uploaded file) ex Built StreamClose now =
     \<lparr>response = Some \<lparr>status = 200,
        body = ConvertedJson (js ''PDF converted successfully'')
                 (js ''/download/'' @ outputFileName now) (originalname file)\<rparr>,
      timers = finally_timers (Some (path file)), uncaught = None,
      document = Some (build_document (originalname file) (extracted_text ex))\<rparr>"
  by (simp add: convert_callback_def try_block_def extracted_text_def)

lemma convert_callback_StreamError:
  "convert_callback e (Uploaded file) ex Built (StreamError err) now =
     \<lparr>response = None, timers = finally_timers (Some (path file)),
      uncaught = Some (Error (js ''Failed to write document: '' @ message err)),
      document = Some (build_document (originalname file) (extracted_text ex))\<rparr>"
  by (simp add: convert_callback_def try_block_def extracted_text_def)

lemmas convert_callback_cases =
  convert_callback_UploadError convert_callback_NoFile convert_callback_BuildThrows
  convert_callback_StreamClose convert_callback_StreamError

lemma post_convert_running:
  "\<not> isShuttingDown st \<Longrightarrow>
   post_convert st e parts ex bd ev now = convert_callback e (multer_single parts) ex bd ev now"
  by (simp add: post_convert_def)

lemma multer_single_pdf_file: "multer_single [pdf_file] = Uploaded pdf_file"
  by (simp add: pdf_file_def fileFilter_def fileSize_limit_def files_limit_def)

section \<open>Soft extraction failure\<close>

text \<open>
  Claim C3, as amended. For every upload that passes validation, on a server that is not
  shutting down, an exception during text extraction opens no error path: the document is
  built from the placeholder that embeds the exception's message, the response is the one
  a successful extraction would have led to, and when the document is built and its
  stream closes the client receives status 200 with \<^verbatim>\<open>success: true\<close> and the download URL.
\<close>

theorem extraction_failure_is_soft:
  assumes "\<not> isShuttingDown st" and "multer_single parts = Uploaded file"
  shows "post_convert st e parts (ExtractThrows pdfError) Built StreamClose now =
           \<lparr>response = Some \<lparr>status = 200,
              body = ConvertedJson (js ''PDF converted successfully'')
                       (js ''/download/'' @ outputFileName now) (originalname file)\<rparr>,
            timers = finally_timers (Some (path file)), uncaught = None,
            document = Some (build_document (originalname file)
                               (extraction_placeholder (message pdfError)))\<rparr>
         \<and> response (post_convert st e parts (ExtractThrows pdfError) bd ev now) =
             response (post_convert st e parts (Extracted t) bd ev now)"
proof -
  have "response (convert_callback e (Uploaded file) (ExtractThrows pdfError) bd ev now) =
        response (convert_callback e (Uploaded file) (Extracted t) bd ev now)"
    by (cases bd; cases ev) (simp_all add: convert_callback_cases)
  then show ?thesis
    using assms by (simp add: post_convert_running convert_callback_StreamClose extracted_text_def)
qed

theorem extraction_failure_is_soft_witness:
  "post_convert running production [pdf_file] (ExtractThrows corrupted) Built StreamClose
     1700000000000 =
     \<lparr>response = Some \<lparr>status = 200,
        body = ConvertedJson (js ''PDF converted successfully'')
                 (js ''/download/converted-1700000000000.docx'') (js ''report.pdf'')\<rparr>,
      timers = [Timer 1000 (js ''uploads/pdfFile-1700000000000-123456789.pdf'')],
      uncaught = None,
      document = Some [Heading (js ''PDF to Word Conversion''),
                       Subtitle (js ''Source: report.pdf''), Spacer,
                       Para (js ''Error extracting text from PDF: Invalid PDF structure''),
                       Para (js ''This may be an image-based PDF or the file may be corrupted.'')]\<rparr>"
proof -
  have a: "\<not> isShuttingDown running" by (simp add: running_def)
  have n: "outputFileName 1700000000000 = js ''converted-1700000000000.docx''"
    by (simp add: js_def outputFileName_def digits.simps)
  have d: "build_document (js ''report.pdf'') (extraction_placeholder (js ''Invalid PDF structure''))
           = [Heading (js ''PDF to Word Conversion''),
              Subtitle (js ''Source: report.pdf''), Spacer,
              Para (js ''Error extracting text from PDF: Invalid PDF structure''),
              Para (js ''This may be an image-based PDF or the file may be corrupted.'')]"
    by code_simp
  have t: "finally_timers (Some (path pdf_file))
           = [Timer 1000 (js ''uploads/pdfFile-1700000000000-123456789.pdf'')]"
    by (simp add: finally_timers_def truthy_def pdf_file_def js_def)
  have o: "originalname pdf_file = js ''report.pdf''" and m: "message corrupted = js ''Invalid PDF structure''"
    by (simp_all add: pdf_file_def corrupted_def Error_def)
  from extraction_failure_is_soft [OF a multer_single_pdf_file, of production corrupted 1700000000000]
  show ?thesis unfolding n t o m d by (simp add: js_def)
qed

text \<open>
  As the claim states it, the success response follows from the extraction failure alone.
  It does not when the output stream then fails: no response is sent.
\<close>

theorem write_failure_counterexample:
  "multer_single [pdf_file] = Uploaded pdf_file \<and>
   response (post_convert running production [pdf_file] (ExtractThrows corrupted) Built
               (StreamError disk_full) 1700000000000) = None"
  unfolding post_convert_def multer_single_pdf_file convert_callback_StreamError
  by (simp add: running_def)

section \<open>The Upload Gatekeeper decides\<close>

lemma multer_single_admissible:
  "admissible parts \<Longrightarrow> multer_single parts = Uploaded (hd parts)"
  by (cases parts)
     (auto simp: admissible_def fileFilter_def fileSize_limit_def files_limit_def)

lemma multer_single_rejects:
  "\<not> admissible parts \<Longrightarrow> multer_single parts = NoFile \<or> (\<exists>err. multer_single parts = UploadError err)"
  by (cases parts)
     (auto simp: admissible_def fileFilter_def fileSize_limit_def files_limit_def)

text \<open>
  Claim C4. The handler leaves its \<^verbatim>\<open>try\<close> block before a file is admitted exactly when the
  submission is not a single \<^verbatim>\<open>application/pdf\<close> file of at most 10 MB (no file, another
  type, a larger file, more than one file); the response is then a JSON error with status
  400 and no document is built. A single PDF of at most 10 MB is admitted, and when the
  document is built it gets no status 400.
\<close>

theorem gatekeeper_admits_iff:
  "(fst (try_block (multer_single parts) ex bd now) = None \<longleftrightarrow> \<not> admissible parts) \<and>
   (\<not> admissible parts \<longrightarrow>
      status_of (convert_callback e (multer_single parts) ex bd ev now) = Some 400 \<and>
      is_json_error (convert_callback e (multer_single parts) ex bd ev now) \<and>
      document (convert_callback e (multer_single parts) ex bd ev now) = None) \<and>
   (admissible parts \<longrightarrow>
      multer_single parts = Uploaded (hd parts) \<and>
      (bd = Built \<longrightarrow>
         status_of (convert_callback e (multer_single parts) ex bd ev now) \<noteq> Some 400 \<and>
         document (convert_callback e (multer_single parts) ex bd ev now) \<noteq> None))"
proof (cases "admissible parts")
  case True
  then have m: "multer_single parts = Uploaded (hd parts)" by (rule multer_single_admissible)
  have t: "fst (try_block (Uploaded (hd parts)) ex bd now) \<noteq> None"
    by (cases bd) (simp_all add: try_block_def)
  have b: "status_of (convert_callback e (Uploaded (hd parts)) ex Built ev now) \<noteq> Some 400 \<and>
           document (convert_callback e (Uploaded (hd parts)) ex Built ev now) \<noteq> None"
    by (cases ev) (simp_all add: convert_callback_cases status_of_def)
  from True m t b show ?thesis by simp
next
  case False
  from multer_single_rejects [OF False] show ?thesis
  proof
    assume m: "multer_single parts = NoFile"
    then show ?thesis using False
      by (simp add: try_block_def convert_callback_NoFile json_error_def status_of_def
          is_json_error_def)
  next
    assume "\<exists>err. multer_single parts = UploadError err"
    then obtain err where m: "multer_single parts = UploadError err" ..
    then show ?thesis using False
      by (simp add: try_block_def convert_callback_UploadError json_error_def status_of_def
          is_json_error_def)
  qed
qed

lemma admissible_pdf_file: "admissible [pdf_file]"
  by (simp add: admissible_def pdf_file_def)

lemma not_admissible_png_file: "\<not> admissible [png_file]"
  by (simp add: admissible_def png_file_def js_def)

theorem gatekeeper_admits_iff_witness:
  "admissible [pdf_file] \<and> multer_single [pdf_file] = Uploaded pdf_file \<and>
   status_of (convert_callback production (multer_single [pdf_file]) (Extracted (Some hello_world))
                Built StreamClose 1700000000000) = Some 200 \<and>
   \<not> admissible [png_file] \<and>
   status_of (convert_callback production (multer_single [png_file]) (Extracted None) Built
                StreamClose 1700000000000) = Some 400"
proof -
  have "status_of (convert_callback production (Uploaded pdf_file) (Extracted (Some hello_world))
                Built StreamClose 1700000000000) = Some 200"
    by (simp add: convert_callback_StreamClose status_of_def)
  then show ?thesis
    using gatekeeper_admits_iff [of "[pdf_file]" "Extracted (Some hello_world)" Built 1700000000000
        production StreamClose]
      gatekeeper_admits_iff [of "[png_file]" "Extracted None" Built 1700000000000 production
        StreamClose]
      admissible_pdf_file not_admissible_png_file
    by simp
qed

lemma validation_messages:
  "convert_callback e (multer_single []) ex bd ev now =
     json_error 400 (js ''No file was uploaded'')
       (if development e then Some (js ''No file uploaded'') else None)"
  "mimetype file \<noteq> js ''application/pdf'' \<Longrightarrow>
   convert_callback e (multer_single (file # others)) ex bd ev now =
     json_error 400 (js ''Please select a valid PDF file'')
       (if development e then Some (js ''Only PDF files are allowed'') else None)"
  "mimetype file = js ''application/pdf'' \<Longrightarrow> 10 * 1024 * 1024 < size_f file \<Longrightarrow>
   convert_callback e (multer_single (file # others)) ex bd ev now =
     json_error 400 (js ''File too large. Maximum size is 10MB'')
       (if development e then Some (js ''File too large'') else None)"
  "mimetype file = js ''application/pdf'' \<Longrightarrow> size_f file \<le> 10 * 1024 * 1024 \<Longrightarrow>
   others \<noteq> [] \<Longrightarrow>
   convert_callback e (multer_single (file # others)) ex bd ev now =
     json_error 400 (js ''Failed to convert PDF'')
       (if development e then Some (js ''Too many files'') else None)"
proof -
  have 1: "errorMessage (Error (js ''No file uploaded'')) = js ''No file was uploaded''"
    by (simp add: errorMessage_def Error_def js_def)
  have 2: "errorMessage (Error (js ''Only PDF files are allowed'')) = js ''Please select a valid PDF file''"
    by (simp add: errorMessage_def Error_def js_def)
  have 3: "errorMessage (MulterError (js ''LIMIT_FILE_SIZE'') (js ''File too large''))
             = js ''File too large. Maximum size is 10MB''"
    by (simp add: errorMessage_def MulterError_def)
  have 4: "errorMessage (MulterError (js ''LIMIT_FILE_COUNT'') (js ''Too many files''))
             = js ''Failed to convert PDF''"
    by (simp add: errorMessage_def MulterError_def js_def)
  show "convert_callback e (multer_single []) ex bd ev now =
     json_error 400 (js ''No file was uploaded'')
       (if development e then Some (js ''No file uploaded'') else None)"
    by (simp add: convert_callback_NoFile 1)
  show "mimetype file \<noteq> js ''application/pdf'' \<Longrightarrow>
   convert_callback e (multer_single (file # others)) ex bd ev now =
     json_error 400 (js ''Please select a valid PDF file'')
       (if development e then Some (js ''Only PDF files are allowed'') else None)"
    by (simp add: fileFilter_def convert_callback_UploadError 2) (simp add: Error_def)
  show "mimetype file = js ''application/pdf'' \<Longrightarrow> 10 * 1024 * 1024 < size_f file \<Longrightarrow>
   convert_callback e (multer_single (file # others)) ex bd ev now =
     json_error 400 (js ''File too large. Maximum size is 10MB'')
       (if development e then Some (js ''File too large'') else None)"
    by (simp add: fileFilter_def fileSize_limit_def convert_callback_UploadError 3)
       (simp add: MulterError_def)
  show "mimetype file = js ''application/pdf'' \<Longrightarrow> size_f file \<le> 10 * 1024 * 1024 \<Longrightarrow>
   others \<noteq> [] \<Longrightarrow>
   convert_callback e (multer_single (file # others)) ex bd ev now =
     json_error 400 (js ''Failed to convert PDF'')
       (if development e then Some (js ''Too many files'') else None)"
    by (simp add: fileFilter_def fileSize_limit_def files_limit_def convert_callback_UploadError 4)
       (simp add: MulterError_def)
qed

section \<open>Write failure\<close>

text \<open>
  Claim C5 at a failing input: a valid upload whose output stream emits \<^verbatim>\<open>'error'\<close>. The
  listener throws outside the \<^verbatim>\<open>try\<close> block, so the handler sends no response at all (no
  status 500), and the exception reaches the process, which starts to shut down.
\<close>

theorem write_failure_sends_no_response:
  "response (post_convert running production [pdf_file] (Extracted (Some hello_world)) Built
               (StreamError disk_full) 1700000000000) = None \<and>
   uncaught (post_convert running production [pdf_file] (Extracted (Some hello_world)) Built
               (StreamError disk_full) 1700000000000)
     = Some (Error (js ''Failed to write document: '' @ message disk_full)) \<and>
   isShuttingDown (after_request running
     (post_convert running production [pdf_file] (Extracted (Some hello_world)) Built
        (StreamError disk_full) 1700000000000))"
  unfolding post_convert_def multer_single_pdf_file convert_callback_StreamError
  by (simp add: running_def after_request_def gracefulShutdown_def)

section \<open>Cleanup of the temporary file\<close>

text \<open>
  Claim C6, as amended. On every exit path of a request whose file was admitted (success,
  extraction failure, an exception while the document is built, write failure) the
  deletion of the temporary file is scheduled, 1000 ms later; when validation fails (an
  upload error or no file) the handler has no temporary path and schedules nothing.
\<close>

theorem temp_file_cleanup_scheduled:
  "(path file \<noteq> [] \<longrightarrow>
      timers (convert_callback e (Uploaded file) ex bd ev now) = [Timer 1000 (path file)]) \<and>
   timers (convert_callback e (UploadError err) ex bd ev now) = [] \<and>
   timers (convert_callback e NoFile ex bd ev now) = []"
proof -
  have "timers (convert_callback e (Uploaded file) ex bd ev now) = finally_timers (Some (path file))"
    by (cases bd; cases ev) (simp_all add: convert_callback_cases)
  then show ?thesis
    by (simp add: convert_callback_UploadError convert_callback_NoFile json_error_def
        finally_timers_def truthy_def)
qed

theorem temp_file_cleanup_scheduled_witness:
  "path pdf_file \<noteq> [] \<and>
   timers (convert_callback production (Uploaded pdf_file) (ExtractThrows corrupted) Built
             (StreamError disk_full) 1700000000000) = [Timer 1000 (path pdf_file)]"
  using temp_file_cleanup_scheduled [of pdf_file production "ExtractThrows corrupted" Built
      "StreamError disk_full" 1700000000000]
  by (simp add: pdf_file_def js_def)

text \<open>
  As the claim states it, a validation failure schedules the deletion too. It does not.
\<close>

theorem validation_failure_schedules_nothing:
  "status_of (post_convert running production [png_file] (Extracted None) Built StreamClose
                1700000000000) = Some 400 \<and>
   timers (post_convert running production [png_file] (Extracted None) Built StreamClose
             1700000000000) = []"
proof -
  have "mimetype png_file \<noteq> js ''application/pdf''" by (simp add: png_file_def js_def)
  then have "multer_single [png_file] = UploadError (Error (js ''Only PDF files are allowed''))"
    by (simp add: fileFilter_def)
  then show ?thesis
    unfolding post_convert_def
    by (simp add: running_def convert_callback_UploadError json_error_def status_of_def)
qed


section \<open>Download: the filename check\<close>

lemma is_digit_dot: "\<not> is_digit 0x2E"
  by (simp add: is_digit_def)

lemma test_filename_iff:
  "test_filename filename \<longleftrightarrow>
     (\<exists>ds. ds \<noteq> [] \<and> (\<forall>d \<in> set ds. is_digit d) \<and>
           filename = js ''converted-'' @ ds @ js ''.docx'')"
proof
  assume t: "test_filename filename"
  let ?p = "js ''converted-''"
  let ?r = "drop (length ?p) filename"
  from t have p: "take (length ?p) filename = ?p" and ne: "takeWhile is_digit ?r \<noteq> []"
    and d: "dropWhile is_digit ?r = js ''.docx''"
    by (simp_all add: test_filename_def Let_def)
  have "filename = take (length ?p) filename @ ?r" by simp
  also have "\<dots> = ?p @ takeWhile is_digit ?r @ dropWhile is_digit ?r" by (simp only: p takeWhile_dropWhile_id)
  finally have "filename = ?p @ takeWhile is_digit ?r @ js ''.docx''" by (simp only: d)
  moreover have "\<forall>x \<in> set (takeWhile is_digit ?r). is_digit x"
    using set_takeWhileD by fastforce
  ultimately show "\<exists>ds. ds \<noteq> [] \<and> (\<forall>d \<in> set ds. is_digit d) \<and>
           filename = js ''converted-'' @ ds @ js ''.docx''"
    using ne by blast
next
  assume "\<exists>ds. ds \<noteq> [] \<and> (\<forall>d \<in> set ds. is_digit d) \<and>
           filename = js ''converted-'' @ ds @ js ''.docx''"
  then obtain ds where ne: "ds \<noteq> []" and dg: "\<forall>d \<in> set ds. is_digit d"
    and f: "filename = js ''converted-'' @ ds @ js ''.docx''" by blast
  have dot: "js ''.docx'' = 0x2E # js ''docx''" by (simp add: js_def)
  have tw: "takeWhile is_digit (ds @ js ''.docx'') = ds"
    using dg by (simp add: takeWhile_append2 dot is_digit_dot)
  have dw: "dropWhile is_digit (ds @ js ''.docx'') = js ''.docx''"
    using dg by (simp add: dropWhile_append2 dot is_digit_dot)
  show "test_filename filename"
    unfolding test_filename_def Let_def f using ne by (simp add: tw dw)
qed

lemma is_digit_small: "n < 10 \<Longrightarrow> is_digit (0x30 + of_nat n)"
proof -
  assume "n < 10"
  then have "n \<in> set [0..<10]" by simp
  then show ?thesis by (auto simp: upt_rec is_digit_def)
qed

lemma digits_are_digits: "digits n \<noteq> [] \<and> (\<forall>d \<in> set (digits n). is_digit d)"
proof (induction n rule: digits.induct)
  case (1 n)
  show ?case
  proof (cases "n < 10")
    case True
    then show ?thesis by (subst (1 2) digits.simps) (simp add: is_digit_small)
  next
    case False
    have "n mod 10 < 10" by simp
    then have "is_digit (0x30 + of_nat (n mod 10))" by (rule is_digit_small)
    with False 1 show ?thesis by (subst (1 2) digits.simps) simp
  qed
qed

lemma outputFileName_accepted: "test_filename (outputFileName now)"
  unfolding test_filename_iff outputFileName_def using digits_are_digits [of now] by blast

lemma traversal_rejected: "\<not> test_filename (js ''../../etc/passwd'')"
  by (simp add: test_filename_def js_def)

text \<open>
  Claim C7, as amended. A filename that does not match \<^verbatim>\<open>converted-<digits>.docx\<close> gets a
  JSON error in every server state (status 400, or 503 during shutdown) and no file is
  streamed; on a server that is not shutting down, a matching filename whose file is
  absent gets status 404.
\<close>

theorem download_filename_validation:
  "(\<not> test_filename filename \<longrightarrow>
      get_download st e fs filename err headersSent now =
        (if isShuttingDown st then shutting_down
         else json_error 400 (js ''Invalid filename'') None) \<and>
      is_json_error (get_download st e fs filename err headersSent now)) \<and>
   (\<not> isShuttingDown st \<and> test_filename filename \<and> path_join (outputDir e) filename \<notin> fs \<longrightarrow>
      get_download st e fs filename err headersSent now =
        json_error 404 (js ''File not found or expired'') None)"
  by (simp add: get_download_def shutting_down_def json_error_def is_json_error_def)

theorem download_filename_validation_witness:
  "\<not> test_filename (js ''../../etc/passwd'') \<and>
   get_download running production {} (js ''../../etc/passwd'') None False 1700000000000 =
     json_error 400 (js ''Invalid filename'') None \<and>
   test_filename (converted_docx) \<and>
   get_download running production {} (converted_docx) None False
     1700000000000 = json_error 404 (js ''File not found or expired'') None"
proof -
  have t: "test_filename (converted_docx)"
    by (simp add: test_filename_def converted_docx_def js_def is_digit_def)
  show ?thesis
    using download_filename_validation [of "js ''../../etc/passwd''" running production "{}" None
        False 1700000000000]
      download_filename_validation [of "converted_docx" running production
        "{}" None False 1700000000000]
      traversal_rejected t
    by (simp add: running_def)
qed

text \<open>
  As the claim states it, a matching filename whose file is absent gets 404 on every
  request. During shutdown it gets 503.
\<close>

theorem download_during_shutdown_counterexample:
  "test_filename (converted_docx) \<and>
   path_join (outputDir production) (converted_docx) \<notin> {} \<and>
   status_of (get_download stopping production {} (converted_docx) None
                False 1700000000000) = Some 503"
proof -
  have t: "test_filename (converted_docx)"
    by (simp add: test_filename_def converted_docx_def js_def is_digit_def)
  then show ?thesis
    by (simp add: get_download_def stopping_def shutting_down_def json_error_def status_of_def)
qed

section \<open>Error details\<close>

lemma errorMessage_class:
  "message_class e1 = message_class e2 \<Longrightarrow> errorMessage e1 = errorMessage e2"
  by (simp add: message_class_def errorMessage_def)

lemma details_of_json_error: "details_of (json_error st m d) = d"
  by (simp add: details_of_def json_error_def)

lemma details_of_convert_callback:
  "details_of (convert_callback e up ex bd ev now) \<noteq> None \<Longrightarrow> development e"
  by (cases up; cases bd; cases ev)
     (simp_all add: convert_callback_cases details_of_json_error, simp_all add: details_of_def split: if_splits)

lemma details_of_get_download: "details_of (get_download st e fs filename err hs now) = None"
  by (simp add: get_download_def shutting_down_def Let_def details_of_json_error split: option.splits)
     (simp add: details_of_def)

text \<open>
  Claim C8, as amended. An error response carries \<^verbatim>\<open>details\<close> only in development mode,
  and only the conversion's \<^verbatim>\<open>catch\<close> block ever sends any; outside development mode, two
  errors give the same response when they agree on what the \<^verbatim>\<open>catch\<close> block reads of them:
  whether the code is \<^verbatim>\<open>LIMIT_FILE_SIZE\<close> and whether the message contains
  \<^verbatim>\<open>Only PDF files\<close> or \<^verbatim>\<open>No file uploaded\<close>.
\<close>

theorem error_details_only_in_development:
  "(details_of (convert_callback e up ex bd ev now) \<noteq> None \<longrightarrow> development e) \<and>
   (\<not> development e \<and> message_class e1 = message_class e2 \<longrightarrow>
      convert_callback e (UploadError e1) ex bd ev now =
        convert_callback e (UploadError e2) ex bd ev now \<and>
      convert_callback e (Uploaded file) ex (BuildThrows e1) ev now =
        convert_callback e (Uploaded file) ex (BuildThrows e2) ev now) \<and>
   details_of shutting_down = None \<and>
   details_of (get_download st e fs filename err headersSent now) = None \<and>
   details_of (get_root st index_exists) = None \<and>
   details_of (route_root st index_exists) = None \<and>
   details_of not_found = None \<and>
   (\<forall>r. error_middleware headersSent error = Some r \<longrightarrow> details_of r = None) \<and>
   (\<forall>r. request_timeout headersSent = Some r \<longrightarrow> details_of r = None)"
proof -
  have 1: "details_of (convert_callback e up ex bd ev now) \<noteq> None \<longrightarrow> development e"
    using details_of_convert_callback by blast
  have 2: "\<not> development e \<and> message_class e1 = message_class e2 \<longrightarrow>
      convert_callback e (UploadError e1) ex bd ev now =
        convert_callback e (UploadError e2) ex bd ev now \<and>
      convert_callback e (Uploaded file) ex (BuildThrows e1) ev now =
        convert_callback e (Uploaded file) ex (BuildThrows e2) ev now"
    using errorMessage_class [of e1 e2]
    by (simp add: convert_callback_UploadError convert_callback_BuildThrows)
  have 3: "details_of shutting_down = None" "details_of not_found = None"
    "details_of (get_root st index_exists) = None"
    "details_of (route_root st index_exists) = None"
    by (simp_all add: shutting_down_def not_found_def get_root_def route_root_def
          express_static_root_def error_middleware_def details_of_json_error)
       (simp_all add: details_of_def)
  have 4: "\<forall>r. error_middleware headersSent error = Some r \<longrightarrow> details_of r = None"
    by (auto simp: error_middleware_def details_of_json_error split: if_splits)
  have 5: "\<forall>r. request_timeout headersSent = Some r \<longrightarrow> details_of r = None"
    by (auto simp: request_timeout_def details_of_json_error split: if_splits)
  show ?thesis
    by (intro conjI) (rule 1 2 3 4 5 details_of_get_download)+
qed

theorem error_details_only_in_development_witness:
  "\<not> development production \<and>
   message_class (Error (js ''Unexpected end of form'')) =
     message_class (Error (js ''Unexpected field'')) \<and>
   convert_callback production (UploadError (Error (js ''Unexpected end of form'')))
       (Extracted None) Built StreamClose 1700000000000 =
     convert_callback production (UploadError (Error (js ''Unexpected field'')))
       (Extracted None) Built StreamClose 1700000000000 \<and>
   development development_mode \<and>
   details_of (convert_callback development_mode (UploadError corrupted) (Extracted None) Built
                 StreamClose 1700000000000) = Some (js ''Invalid PDF structure'') \<and>
   error_middleware False corrupted = Some (json_error 500 (js ''Internal server error'') None) \<and>
   request_timeout False = Some (json_error 408 (js ''Request timeout'') None)"
proof -
  have d: "\<not> development production"
    by (simp add: development_def production_def js_def)
  have c: "message_class (Error (js ''Unexpected end of form'')) =
           message_class (Error (js ''Unexpected field''))"
    by (simp add: message_class_def Error_def js_def)
  have v: "development development_mode"
    by (simp add: development_def development_mode_def)
  have m: "details_of (convert_callback development_mode (UploadError corrupted) (Extracted None)
                 Built StreamClose 1700000000000) = Some (js ''Invalid PDF structure'')"
    using v by (simp add: convert_callback_UploadError details_of_json_error corrupted_def Error_def)
  have e: "error_middleware False corrupted = Some (json_error 500 (js ''Internal server error'') None)"
    by (simp add: error_middleware_def corrupted_def Error_def js_def)
  have t: "request_timeout False = Some (json_error 408 (js ''Request timeout'') None)"
    by (simp add: request_timeout_def)
  from error_details_only_in_development [where e = production
      and ?e1.0 = "Error (js ''Unexpected end of form'')"
      and ?e2.0 = "Error (js ''Unexpected field'')"
      and ex = "Extracted None" and bd = Built and ev = StreamClose and now = 1700000000000] d c
  have "convert_callback production (UploadError (Error (js ''Unexpected end of form'')))
       (Extracted None) Built StreamClose 1700000000000 =
     convert_callback production (UploadError (Error (js ''Unexpected field'')))
       (Extracted None) Built StreamClose 1700000000000" by simp
  with d c v m e t show ?thesis by simp
qed

text \<open>
  As the claim states it, two errors that differ only in their message give the same body
  outside development mode. The body's text is chosen by the message.
\<close>

theorem error_body_depends_on_message:
  "\<not> development production \<and>
   code (Error (js ''Only PDF files are allowed'')) = code (Error (js ''Unexpected end of form'')) \<and>
   convert_callback production (UploadError (Error (js ''Only PDF files are allowed'')))
       (Extracted None) Built StreamClose 1700000000000 \<noteq>
     convert_callback production (UploadError (Error (js ''Unexpected end of form'')))
       (Extracted None) Built StreamClose 1700000000000"
proof -
  have d: "\<not> development production"
    by (simp add: development_def production_def js_def)
  have 1: "errorMessage (Error (js ''Only PDF files are allowed'')) = js ''Please select a valid PDF file''"
    by (simp add: errorMessage_def Error_def js_def)
  have 2: "errorMessage (Error (js ''Unexpected end of form'')) = js ''Failed to convert PDF''"
    by (simp add: errorMessage_def Error_def js_def)
  have 3: "js ''Please select a valid PDF file'' \<noteq> js ''Failed to convert PDF''"
    by (simp add: js_def)
  show ?thesis
    using d 3 by (simp add: convert_callback_UploadError 1 2 json_error_def) (simp add: Error_def)
qed

section \<open>Health check and the shutdown flag\<close>

text \<open>
  What holds of the shutdown flag: \<^verbatim>\<open>GET /health\<close> answers 200 with the status payload in
  every server state; once the flag is set, which \<open>gracefulShutdown\<close> does,
  \<^verbatim>\<open>POST /convert\<close> and \<^verbatim>\<open>GET /download/:filename\<close> answer 503, and so does \<^verbatim>\<open>GET /\<close> when the
  request reaches its handler, that is when \<^verbatim>\<open>public/index.html\<close> does not exist.
\<close>

lemma shutdown_gates:
  "get_health st =
     \<lparr>response = Some \<lparr>status = 200, body = HealthJson\<rparr>, timers = [], uncaught = None,
      document = None\<rparr> \<and>
   (isShuttingDown st \<longrightarrow>
      status_of (get_root st index_exists) = Some 503 \<and>
      status_of (route_root st False) = Some 503 \<and>
      status_of (post_convert st e parts ex bd ev now) = Some 503 \<and>
      status_of (get_download st e fs filename err headersSent now) = Some 503) \<and>
   isShuttingDown (gracefulShutdown st)"
  by (simp add: get_health_def get_root_def route_root_def express_static_root_def
      post_convert_def get_download_def shutting_down_def json_error_def status_of_def
      gracefulShutdown_def)

lemma route_root_page:
  "route_root st True =
     \<lparr>response = Some \<lparr>status = 200, body = SendFile (js ''public/index.html'')\<rparr>,
      timers = [], uncaught = None, document = None\<rparr>"
  by (simp add: route_root_def express_static_root_def)

lemma get_root_missing_page:
  "\<not> isShuttingDown st \<Longrightarrow>
   route_root st False = json_error 500 (js ''Internal server error'') None"
  by (simp add: route_root_def express_static_root_def get_root_def error_middleware_def js_def)

text \<open>
  Claim C9 at a failing input: \<^verbatim>\<open>GET /\<close> while the shutdown flag is set and the page
  \<^verbatim>\<open>public/index.html\<close> exists. The handler would answer 503, but the static middleware,
  registered before it, has already served the page with status 200: the gate on \<^verbatim>\<open>GET /\<close>
  is not reached.
\<close>

theorem root_served_during_shutdown:
  "isShuttingDown stopping \<and>
   status_of (get_root stopping True) = Some 503 \<and>
   route_root stopping True =
     \<lparr>response = Some \<lparr>status = 200, body = SendFile (js ''public/index.html'')\<rparr>,
      timers = [], uncaught = None, document = None\<rparr> \<and>
   status_of (get_health stopping) = Some 200"
  by (simp add: stopping_def get_root_def route_root_def express_static_root_def get_health_def
      shutting_down_def json_error_def status_of_def)

section \<open>Retention of the output file\<close>

lemma timers_convert_callback:
  "t \<in> set (timers (convert_callback e up ex bd ev now)) \<Longrightarrow>
   \<exists>file. up = Uploaded file \<and> t = Timer 1000 (path file)"
  by (cases up; cases bd; cases ev)
     (simp_all add: convert_callback_cases json_error_def finally_timers_def split: if_splits)

lemma safeFileCleanup_total:
  "\<exists>fs' l. safeFileCleanup u p fs = Inr (fs', l) \<and> fs' \<subseteq> fs"
  by (auto simp: safeFileCleanup_def unlinkSync_def split: option.splits)

text \<open>
  Claim C10. The download handler sets a deletion timer (120000 ms, for the file it
  served) only when the download callback reports no error; when it reports one, no timer
  is set and the files on disk stay as they are. \<open>safeFileCleanup\<close> never throws: a
  missing file changes nothing, and a failing \<^verbatim>\<open>unlinkSync\<close> is caught and logged. The
  only other timers, those of the conversion, are for the temporary upload.
\<close>

theorem output_deletion_after_download:
  "(timers (get_download st e fs filename err headersSent now) \<noteq> [] \<longrightarrow>
      err = None \<and>
      get_download st e fs filename err headersSent now =
        \<lparr>response = Some \<lparr>status = 200,
           body = Download (path_join (outputDir e) filename)
                    (js ''document-'' @ digits now @ js ''.docx'')\<rparr>,
         timers = [Timer 120000 (path_join (outputDir e) filename)], uncaught = None,
         document = None\<rparr>) \<and>
   (err \<noteq> None \<longrightarrow>
      timers (get_download st e fs filename err headersSent now) = [] \<and>
      fire_all u (timers (get_download st e fs filename err headersSent now)) fs = Inr fs) \<and>
   (\<exists>fs' l. safeFileCleanup u p fs = Inr (fs', l) \<and> fs' \<subseteq> fs) \<and>
   (p = None \<or> the p \<notin> fs \<longrightarrow> safeFileCleanup u p fs = Inr (fs, [])) \<and>
   (\<forall>error. truthy p \<and> the p \<in> fs \<and> u (the p) = Some error \<longrightarrow>
      safeFileCleanup u p fs = Inr (fs, [LogError (js ''Cleanup failed:'') (message error)])) \<and>
   (\<forall>t \<in> set (timers (convert_callback e up ex bd ev now)).
      \<exists>file. up = Uploaded file \<and> t = Timer 1000 (path file))"
proof -
  have 1: "timers (get_download st e fs filename err headersSent now) \<noteq> [] \<longrightarrow>
      err = None \<and>
      get_download st e fs filename err headersSent now =
        \<lparr>response = Some \<lparr>status = 200,
           body = Download (path_join (outputDir e) filename)
                    (js ''document-'' @ digits now @ js ''.docx'')\<rparr>,
         timers = [Timer 120000 (path_join (outputDir e) filename)], uncaught = None,
         document = None\<rparr>"
    by (simp add: get_download_def shutting_down_def json_error_def Let_def
        split: option.splits)
  have 2: "err \<noteq> None \<longrightarrow>
      timers (get_download st e fs filename err headersSent now) = [] \<and>
      fire_all u (timers (get_download st e fs filename err headersSent now)) fs = Inr fs"
    by (auto simp: get_download_def shutting_down_def json_error_def Let_def)
  have 3: "p = None \<or> the p \<notin> fs \<longrightarrow> safeFileCleanup u p fs = Inr (fs, [])"
    by (auto simp: safeFileCleanup_def truthy_def)
  have 4: "\<forall>error. truthy p \<and> the p \<in> fs \<and> u (the p) = Some error \<longrightarrow>
      safeFileCleanup u p fs = Inr (fs, [LogError (js ''Cleanup failed:'') (message error)])"
    by (simp add: safeFileCleanup_def unlinkSync_def)
  have 5: "\<forall>t \<in> set (timers (convert_callback e up ex bd ev now)).
             \<exists>file. up = Uploaded file \<and> t = Timer 1000 (path file)"
    using timers_convert_callback by blast
  show ?thesis
    by (intro conjI) (rule 1 2 3 4 5 safeFileCleanup_total)+
qed


theorem output_deletion_after_download_witness:
  "timers (get_download running production {js ''/app/output/converted-1700000000000.docx''}
             converted_docx None False 1700000000001)
     = [Timer 120000 (js ''/app/output/converted-1700000000000.docx'')] \<and>
   timers (get_download running production {js ''/app/output/converted-1700000000000.docx''}
             converted_docx (Some aborted) True 1700000000001) = [] \<and>
   safeFileCleanup unlink_busy (Some (js ''/app/output/converted-1700000000000.docx''))
       {js ''/app/output/converted-1700000000000.docx''}
     = Inr ({js ''/app/output/converted-1700000000000.docx''},
            [LogError (js ''Cleanup failed:'') (js ''EBUSY: resource busy or locked, unlink'')]) \<and>
   safeFileCleanup unlink_busy (Some (js ''/app/output/converted-1700000000000.docx'')) {}
     = Inr ({}, [])"
proof -
  let ?out = "js ''/app/output/converted-1700000000000.docx''"
  have p: "path_join (outputDir production) converted_docx = ?out"
    by (simp add: path_join_def production_def converted_docx_def js_def)
  have t: "test_filename converted_docx"
    by (simp add: test_filename_def converted_docx_def js_def is_digit_def)
  have ok: "timers (get_download running production {?out} converted_docx None False 1700000000001)
              \<noteq> []"
    using t p by (simp add: get_download_def running_def Let_def)
  have u: "truthy (Some ?out) \<and> the (Some ?out) \<in> {?out} \<and>
           unlink_busy (the (Some ?out)) = Some (Error (js ''EBUSY: resource busy or locked, unlink''))"
    by (simp add: truthy_def unlink_busy_def js_def)
  from output_deletion_after_download [of running production "{?out}" converted_docx None False
      1700000000001 unlink_busy "Some ?out"]
    output_deletion_after_download [of running production "{?out}" converted_docx "Some aborted"
      True 1700000000001 unlink_busy "Some ?out"]
    output_deletion_after_download [of running production "{}" converted_docx None False
      1700000000001 unlink_busy "Some ?out"]
    ok u p
  show ?thesis by (simp add: Error_def)
qed

end
